theory Spec2Isabelle
  imports Main
begin

section \<open>Host strings\<close>

text \<open>
  The formula engine of \<^verbatim>\<open>src/components/Spreadsheet.tsx\<close> is one function,
  \<^verbatim>\<open>evaluateFormula\<close>, built from host operations on strings and numbers:
  \<^verbatim>\<open>startsWith\<close>, \<^verbatim>\<open>substring\<close>, \<^verbatim>\<open>trim\<close>, \<^verbatim>\<open>replace\<close> with a global regular expression,
  \<^verbatim>\<open>parseInt\<close>, \<^verbatim>\<open>parseFloat\<close>, \<^verbatim>\<open>isNaN\<close>, \<^verbatim>\<open>String\<close> and the \<^verbatim>\<open>Function\<close> constructor.
  Each is modelled here as an executable function.

  A string is a list of code units; the model covers the code units below 256, read as
  Latin-1, so that a \<^typ>\<open>char\<close> is a code unit and \<open>of_char\<close> is \<^verbatim>\<open>charCodeAt\<close>.
\<close>

definition code :: "char \<Rightarrow> int" where
  "code c = of_char c"

definition isDigit :: "char \<Rightarrow> bool" where
  "isDigit c = (48 \<le> code c \<and> code c \<le> 57)"

definition isUpper :: "char \<Rightarrow> bool" where
  "isUpper c = (65 \<le> code c \<and> code c \<le> 90)"

definition isLower :: "char \<Rightarrow> bool" where
  "isLower c = (97 \<le> code c \<and> code c \<le> 122)"

text \<open>The class \<^verbatim>\<open>[A-Z]\<close> under the flag \<^verbatim>\<open>i\<close>: the letters of either case.\<close>

definition isAlpha :: "char \<Rightarrow> bool" where
  "isAlpha c = (isUpper c \<or> isLower c)"

definition toUpperAscii :: "char \<Rightarrow> char" where
  "toUpperAscii c = (if isLower c then char_of (code c - 32) else c)"

text \<open>
  White space and line terminators, as \<^verbatim>\<open>trim\<close> and \<^verbatim>\<open>parseFloat\<close> strip them: tab, line
  feed, vertical tab, form feed, carriage return, space and no-break space.
\<close>

definition isWhiteSpace :: "char \<Rightarrow> bool" where
  "isWhiteSpace c = (code c \<in> {9, 10, 11, 12, 13, 32, 160})"

definition trim :: "string \<Rightarrow> string" where
  "trim s = rev (dropWhile isWhiteSpace (rev (dropWhile isWhiteSpace s)))"

definition startsWith :: "string \<Rightarrow> string \<Rightarrow> bool" where
  "startsWith p s = (take (length p) s = p)"

text \<open>The value of a run of decimal digits.\<close>

definition digitsVal :: "string \<Rightarrow> int" where
  "digitsVal ds = foldl (\<lambda>a c. 10 * a + (code c - 48)) 0 ds"

function showNat :: "int \<Rightarrow> string" where
  "showNat n =
     (if n < 10 then [char_of (48 + n)]
      else showNat (n div 10) @ [char_of (48 + n mod 10)])"
  by pat_completeness auto
termination
  by (relation "measure nat") auto

declare showNat.simps [simp del]

text \<open>
  \<^verbatim>\<open>String(i)\<close> for an integer \<open>i\<close> of magnitude below \<open>10\<^sup>2\<^sup>1\<close>: the decimal digits, with
  a minus sign when negative.
\<close>

definition showInt :: "int \<Rightarrow> string" where
  "showInt i = (if i < 0 then CHR ''-'' # showNat (- i) else showNat i)"

section \<open>Host numbers\<close>

text \<open>
  A Number is an IEEE 754 double. \<open>Finite s m e\<close> is \<open>(-1)\<^sup>s \<sqdot> m \<sqdot> 2\<^sup>e\<close> in the format's own
  normal form: \<open>2\<^sup>5\<^sup>2 \<le> m < 2\<^sup>5\<^sup>3\<close> and \<open>-1074 \<le> e \<le> 971\<close> for a normal number,
  \<open>m < 2\<^sup>5\<^sup>2\<close> and \<open>e = -1074\<close> for a subnormal one and for the two zeros.
\<close>

datatype jsnum = NaN | Infinity bool | Finite bool int int

function bitlen :: "int \<Rightarrow> nat" where
  "bitlen n = (if n \<le> 0 then 0 else Suc (bitlen (n div 2)))"
  by pat_completeness auto
termination
  by (relation "measure nat") auto

declare bitlen.simps [simp del]

definition pack :: "bool \<Rightarrow> int \<Rightarrow> int \<Rightarrow> jsnum" where
  "pack s q e =
     (if q = 2 ^ 53 then (if 971 < e + 1 then Infinity s else Finite s (2 ^ 52) (e + 1))
      else if 971 < e then Infinity s else Finite s q e)"

text \<open>
  \<open>fl s m e\<close> rounds \<open>(-1)\<^sup>s \<sqdot> m \<sqdot> 2\<^sup>e\<close> (with \<open>0 \<le> m\<close>) to the nearest double, ties to the
  even significand, overflowing to an infinity.
\<close>

definition fl :: "bool \<Rightarrow> int \<Rightarrow> int \<Rightarrow> jsnum" where
  "fl s m e =
     (if m \<le> 0 then Finite s 0 (- 1074)
      else
        let sh = max (int (bitlen m) - 53) (- 1074 - e) in
        if sh \<le> 0 then pack s (m * 2 ^ nat (- sh)) (e + sh)
        else
          let q = m div 2 ^ nat sh;
              r = m mod 2 ^ nat sh;
              half = 2 ^ (nat sh - 1);
              q' = (if half < r \<or> (r = half \<and> odd q) then q + 1 else q)
          in pack s q' (e + sh))"

text \<open>
  \<open>roundQuot s a b x\<close> rounds \<open>(-1)\<^sup>s \<sqdot> (a / b) \<sqdot> 2\<^sup>x\<close>: the quotient is taken to 55 bits
  or more, and a last bit records whether anything was left over.
\<close>

definition roundQuot :: "bool \<Rightarrow> int \<Rightarrow> int \<Rightarrow> int \<Rightarrow> jsnum" where
  "roundQuot s a b x =
     (let k = nat (max 0 (55 + int (bitlen b) - int (bitlen a)));
          q = (a * 2 ^ k) div b;
          r = (a * 2 ^ k) mod b
      in fl s (2 * q + (if r = 0 then 0 else 1)) (x - int k - 1))"

text \<open>The double nearest to \<open>(-1)\<^sup>s \<sqdot> d \<sqdot> 10\<^sup>p\<close>.\<close>

definition decToNum :: "bool \<Rightarrow> int \<Rightarrow> int \<Rightarrow> jsnum" where
  "decToNum s d p =
     (if 0 \<le> p then fl s (d * 10 ^ nat p) 0 else roundQuot s d (10 ^ nat (- p)) 0)"

definition zero :: jsnum where
  "zero = Finite False 0 (- 1074)"

definition one :: jsnum where
  "one = Finite False (2 ^ 52) (- 52)"

definition isNaN :: "jsnum \<Rightarrow> bool" where
  "isNaN x = (case x of NaN \<Rightarrow> True | _ \<Rightarrow> False)"

definition signed :: "bool \<Rightarrow> int \<Rightarrow> int" where
  "signed s v = (if s then - v else v)"

text \<open>
  Addition: the exact sum of the two values, rounded. A zero added to a number leaves it as
  it is; two zeros, or a number and its negation, give \<open>+0\<close>, but for \<open>-0 + -0 = -0\<close>.
\<close>

fun dadd :: "jsnum \<Rightarrow> jsnum \<Rightarrow> jsnum" where
  "dadd NaN _ = NaN"
| "dadd _ NaN = NaN"
| "dadd (Infinity s) (Infinity t) = (if s = t then Infinity s else NaN)"
| "dadd (Infinity s) (Finite _ _ _) = Infinity s"
| "dadd (Finite _ _ _) (Infinity t) = Infinity t"
| "dadd (Finite s m e) (Finite t n f) =
     (if m = 0 \<and> n = 0 then Finite (s \<and> t) 0 (- 1074)
      else if m = 0 then Finite t n f
      else if n = 0 then Finite s m e
      else
        let g = min e f;
            v = signed s (m * 2 ^ nat (e - g)) + signed t (n * 2 ^ nat (f - g))
        in if v = 0 then Finite False 0 (- 1074) else fl (v < 0) \<bar>v\<bar> g)"

fun dneg :: "jsnum \<Rightarrow> jsnum" where
  "dneg NaN = NaN"
| "dneg (Infinity s) = Infinity (\<not> s)"
| "dneg (Finite s m e) = Finite (\<not> s) m e"

definition dsub :: "jsnum \<Rightarrow> jsnum \<Rightarrow> jsnum" where
  "dsub a b = dadd a (dneg b)"

fun dmul :: "jsnum \<Rightarrow> jsnum \<Rightarrow> jsnum" where
  "dmul NaN _ = NaN"
| "dmul _ NaN = NaN"
| "dmul (Infinity s) (Infinity t) = Infinity (s \<noteq> t)"
| "dmul (Infinity s) (Finite t n f) = (if n = 0 then NaN else Infinity (s \<noteq> t))"
| "dmul (Finite s m e) (Infinity t) = (if m = 0 then NaN else Infinity (s \<noteq> t))"
| "dmul (Finite s m e) (Finite t n f) = fl (s \<noteq> t) (m * n) (e + f)"

fun ddiv :: "jsnum \<Rightarrow> jsnum \<Rightarrow> jsnum" where
  "ddiv NaN _ = NaN"
| "ddiv _ NaN = NaN"
| "ddiv (Infinity s) (Infinity t) = NaN"
| "ddiv (Infinity s) (Finite t n f) = Infinity (s \<noteq> t)"
| "ddiv (Finite s m e) (Infinity t) = Finite (s \<noteq> t) 0 (- 1074)"
| "ddiv (Finite s m e) (Finite t n f) =
     (if n = 0 then (if m = 0 then NaN else Infinity (s \<noteq> t))
      else if m = 0 then Finite (s \<noteq> t) 0 (- 1074)
      else roundQuot (s \<noteq> t) m n (e - f))"

text \<open>The comparison \<^verbatim>\<open>a > b\<close>; false when either side is \<^verbatim>\<open>NaN\<close>.\<close>

fun jsGreater :: "jsnum \<Rightarrow> jsnum \<Rightarrow> bool" where
  "jsGreater NaN _ = False"
| "jsGreater _ NaN = False"
| "jsGreater (Infinity s) (Infinity t) = (\<not> s \<and> t)"
| "jsGreater (Infinity s) (Finite _ _ _) = (\<not> s)"
| "jsGreater (Finite _ _ _) (Infinity t) = t"
| "jsGreater (Finite s m e) (Finite t n f) =
     (if n = 0 then 0 < signed s m
      else if m = 0 then signed t n < 0
      else
        let g = min e f
        in signed t (n * 2 ^ nat (f - g)) < signed s (m * 2 ^ nat (e - g)))"

subsection \<open>\<^verbatim>\<open>String(number)\<close>\<close>

function ndigits :: "int \<Rightarrow> nat" where
  "ndigits n = (if n < 10 then 1 else Suc (ndigits (n div 10)))"
  by pat_completeness auto
termination
  by (relation "measure nat") auto

declare ndigits.simps [simp del]

function lead0 :: "int \<Rightarrow> int \<Rightarrow> nat" where
  "lead0 a b = (if a \<le> 0 \<or> b \<le> 10 * a then 0 else Suc (lead0 (10 * a) b))"
  by pat_completeness auto
termination
  by (relation "measure (\<lambda>(a, b). nat (b - a))") auto

declare lead0.simps [simp del]

text \<open>The \<open>n\<close> with \<open>10\<^sup>n\<^sup>-\<^sup>1 \<le> a / b < 10\<^sup>n\<close>, for positive \<open>a\<close> and \<open>b\<close>.\<close>

definition decExp :: "int \<Rightarrow> int \<Rightarrow> int" where
  "decExp a b = (if b \<le> a then int (ndigits (a div b)) else - int (lead0 a b))"

text \<open>
  The two \<open>k\<close>-digit decimals \<open>lo \<sqdot> 10\<^sup>p\<close> and \<open>(lo + 1) \<sqdot> 10\<^sup>p\<close> around \<open>a / b\<close>, with
  \<open>p = n - k\<close>; \<open>r / d\<close> is how far \<open>a / b\<close> lies above the lower one, in units of \<open>10\<^sup>p\<close>.
\<close>

definition around :: "int \<Rightarrow> int \<Rightarrow> int \<Rightarrow> int \<times> int \<times> int" where
  "around a b p =
     (let a' = (if 0 \<le> p then a else a * 10 ^ nat (- p));
          d = (if 0 \<le> p then b * 10 ^ nat p else b)
      in (a' div d, a' mod d, d))"

definition nearer :: "int \<times> int \<times> int \<Rightarrow> int" where
  "nearer t =
     (case t of (lo, r, d) \<Rightarrow>
        if 2 * r < d then lo else if d < 2 * r then lo + 1
        else if even lo then lo else lo + 1)"

text \<open>
  The digits \<open>s\<close> of length \<open>k\<close> for which \<open>s \<sqdot> 10\<^sup>n\<^sup>-\<^sup>k\<close> reads back as the double \<open>x\<close>,
  the nearer of the two when both do; \<open>None\<close> when neither does.
\<close>

definition digitsAt :: "jsnum \<Rightarrow> int \<Rightarrow> int \<Rightarrow> int \<Rightarrow> nat \<Rightarrow> int option" where
  "digitsAt x a b n k =
     (let p = n - int k;
          t = around a b p;
          lo = fst t;
          okLo = (decToNum False lo p = x);
          okHi = (decToNum False (lo + 1) p = x)
      in if okLo \<and> okHi then Some (nearer t)
         else if okLo then Some lo
         else if okHi then Some (lo + 1)
         else None)"

text \<open>
  The shortest digits, searched from \<open>k\<close> digits upwards; seventeen digits always read
  back, so the search ends there.
\<close>

fun shortest :: "nat \<Rightarrow> jsnum \<Rightarrow> int \<Rightarrow> int \<Rightarrow> int \<Rightarrow> nat \<Rightarrow> nat \<times> int" where
  "shortest 0 x a b n k = (k, nearer (around a b (n - int k)))"
| "shortest (Suc fuel) x a b n k =
     (case digitsAt x a b n k of
        Some s \<Rightarrow> (k, s)
      | None \<Rightarrow> shortest fuel x a b n (Suc k))"

text \<open>Steps 6 to 10 of \<^verbatim>\<open>Number::toString\<close>: \<open>ds\<close> are the \<open>k\<close> digits, \<open>n\<close> the exponent.\<close>

definition layout :: "string \<Rightarrow> int \<Rightarrow> string" where
  "layout ds n =
     (let k = int (length ds) in
      if k \<le> n \<and> n \<le> 21 then ds @ replicate (nat (n - k)) CHR ''0''
      else if 0 < n \<and> n \<le> 21 then take (nat n) ds @ ''.'' @ drop (nat n) ds
      else if - 6 < n \<and> n \<le> 0 then ''0.'' @ replicate (nat (- n)) CHR ''0'' @ ds
      else
        let e = n - 1;
            es = (if e < 0 then CHR ''-'' else CHR ''+'') # showNat \<bar>e\<bar>
        in if k = 1 then ds @ ''e'' @ es
           else take 1 ds @ ''.'' @ drop 1 ds @ ''e'' @ es)"

definition toStringPos :: "int \<Rightarrow> int \<Rightarrow> string" where
  "toStringPos m e =
     (let a = (if 0 \<le> e then m * 2 ^ nat e else m);
          b = (if 0 \<le> e then 1 else 2 ^ nat (- e));
          n = decExp a b;
          ks = shortest 16 (Finite False m e) a b n 1;
          k = fst ks;
          s = snd ks
      in if s = 10 ^ k then layout (showNat (10 ^ (k - 1))) (n + 1)
         else layout (showNat s) n)"

definition toString :: "jsnum \<Rightarrow> string" where
  "toString x =
     (case x of
        NaN \<Rightarrow> ''NaN''
      | Infinity s \<Rightarrow> (if s then ''-Infinity'' else ''Infinity'')
      | Finite s m e \<Rightarrow>
          if m = 0 then ''0''
          else if s then CHR ''-'' # toStringPos m e
          else toStringPos m e)"

subsection \<open>\<^verbatim>\<open>parseFloat\<close>\<close>

text \<open>
  \<^verbatim>\<open>parseFloat\<close> skips leading white space and reads the longest prefix that is a signed
  decimal literal or a signed \<^verbatim>\<open>Infinity\<close>; with no such prefix the result is \<^verbatim>\<open>NaN\<close>.
\<close>

text \<open>
  An exponent part \<^verbatim>\<open>e\<close>, optional sign, digits, at the head of a string: its value and the
  number of characters it takes; \<open>(0, 0)\<close> when the string does not start with one.
\<close>

definition scanExponent :: "string \<Rightarrow> int \<times> nat" where
  "scanExponent r =
     (case r of
        [] \<Rightarrow> (0, 0)
      | c # r1 \<Rightarrow>
          if c = CHR ''e'' \<or> c = CHR ''E'' then
            (case r1 of
               [] \<Rightarrow> (0, 0)
             | d # r2 \<Rightarrow>
                 if d = CHR ''-'' \<or> d = CHR ''+'' then
                   (if takeWhile isDigit r2 = [] then (0, 0)
                    else (signed (d = CHR ''-'') (digitsVal (takeWhile isDigit r2)),
                          2 + length (takeWhile isDigit r2)))
                 else if takeWhile isDigit r1 = [] then (0, 0)
                 else (digitsVal (takeWhile isDigit r1), 1 + length (takeWhile isDigit r1)))
          else (0, 0))"

definition unsignedLiteral :: "bool \<Rightarrow> string \<Rightarrow> jsnum" where
  "unsignedLiteral neg u =
     (if startsWith ''Infinity'' u then Infinity neg
      else
        let ip = takeWhile isDigit u;
            r1 = dropWhile isDigit u;
            fp = (case r1 of [] \<Rightarrow> [] | c # r \<Rightarrow> if c = CHR ''.'' then takeWhile isDigit r else []);
            r2 = (case r1 of [] \<Rightarrow> [] | c # r \<Rightarrow> if c = CHR ''.'' then dropWhile isDigit r else r1)
        in if ip = [] \<and> fp = [] then NaN
           else decToNum neg (digitsVal (ip @ fp)) (fst (scanExponent r2) - int (length fp)))"

definition parseFloat :: "string \<Rightarrow> jsnum" where
  "parseFloat str =
     (case dropWhile isWhiteSpace str of
        [] \<Rightarrow> NaN
      | c # r \<Rightarrow>
          if c = CHR ''-'' then unsignedLiteral True r
          else if c = CHR ''+'' then unsignedLiteral False r
          else unsignedLiteral False (c # r))"

section \<open>The host's evaluation of an expression text\<close>

text \<open>
  \<^verbatim>\<open>Function(`"use strict"; return (${expr})`)()\<close> compiles and runs the text as strict-mode
  code. The model covers the texts made of decimal literals, identifiers, parentheses, the
  operators \<^verbatim>\<open>+ - * /\<close>, the colon and white space. A completion is the value returned, an
  exception thrown (at compilation or at run time: the caller's \<^verbatim>\<open>catch\<close> does not tell them
  apart), or \<open>Beyond\<close>: the text leaves the part of the language modelled here, and the
  model says nothing about it.
\<close>

datatype 'a completion = Normal 'a | Throw | Beyond

datatype token =
  TNum jsnum | TIdent string | TLParen | TRParen | TPlus | TMinus | TStar | TSlash | TColon
  | TBeyond

definition isIdStart :: "char \<Rightarrow> bool" where
  "isIdStart c = (isAlpha c \<or> c = CHR ''$'' \<or> c = CHR ''_'')"

definition isIdPart :: "char \<Rightarrow> bool" where
  "isIdPart c = (isIdStart c \<or> isDigit c)"

text \<open>White space between tokens; a line terminator is left to \<open>TBeyond\<close>.\<close>

definition isJsSpace :: "char \<Rightarrow> bool" where
  "isJsSpace c = (code c \<in> {9, 11, 12, 32, 160})"

text \<open>Names that are not plain identifiers of an expression in strict mode.\<close>

definition reserved :: "string list" where
  "reserved =
     [''await'', ''break'', ''case'', ''catch'', ''class'', ''const'', ''continue'',
      ''debugger'', ''default'', ''delete'', ''do'', ''else'', ''enum'', ''export'',
      ''extends'', ''false'', ''finally'', ''for'', ''function'', ''if'', ''import'', ''in'',
      ''instanceof'', ''new'', ''null'', ''return'', ''super'', ''switch'', ''this'',
      ''throw'', ''true'', ''try'', ''typeof'', ''var'', ''void'', ''while'', ''with'',
      ''yield'', ''let'', ''static'', ''implements'', ''interface'', ''package'', ''private'',
      ''protected'', ''public'', ''async'', ''of'', ''get'', ''set'', ''arguments'', ''eval'']"

text \<open>
  A decimal literal at the head of a string that starts with a digit, or with a dot and a
  digit: the token and the number of characters taken. A literal with a leading zero before
  another digit (an error in strict mode) and a literal followed at once by an identifier
  character (a hexadecimal, binary, octal or BigInt literal, a separator, or an error) are
  left to \<open>TBeyond\<close>.
\<close>

definition scanNumber :: "string \<Rightarrow> token \<times> nat" where
  "scanNumber s =
     (let ip = takeWhile isDigit s;
          r1 = dropWhile isDigit s;
          dot = startsWith ''.'' r1;
          fp = (if dot then takeWhile isDigit (drop 1 r1) else []);
          r2 = (if dot then dropWhile isDigit (drop 1 r1) else r1);
          ex = scanExponent r2;
          len = length ip + (if dot then 1 + length fp else 0) + snd ex;
          after = drop (snd ex) r2
      in if (1 < length ip \<and> startsWith ''0'' ip)
            \<or> (case after of [] \<Rightarrow> False | c # _ \<Rightarrow> isIdStart c \<or> c = CHR 0x5C \<or> 128 \<le> code c)
         then (TBeyond, len)
         else (TNum (decToNum False (digitsVal (ip @ fp)) (fst ex - int (length fp))), len))"

function lex :: "string \<Rightarrow> token list" where
  "lex [] = []"
| "lex (c # cs) =
     (if isJsSpace c then lex cs
      else if c = CHR ''('' then TLParen # lex cs
      else if c = CHR '')'' then TRParen # lex cs
      else if c = CHR '':'' then TColon # lex cs
      else if c = CHR ''+'' then (if startsWith ''+'' cs then [TBeyond] else TPlus # lex cs)
      else if c = CHR ''-'' then (if startsWith ''-'' cs then [TBeyond] else TMinus # lex cs)
      else if c = CHR ''*'' then (if startsWith ''*'' cs then [TBeyond] else TStar # lex cs)
      else if c = CHR ''/'' then
        (if startsWith ''/'' cs \<or> startsWith ''*'' cs then [TBeyond] else TSlash # lex cs)
      else if isIdStart c then
        (if c # takeWhile isIdPart cs \<in> set reserved then [TBeyond]
         else TIdent (c # takeWhile isIdPart cs) # lex (dropWhile isIdPart cs))
      else if isDigit c \<or> (c = CHR ''.'' \<and> \<not> takeWhile isDigit cs = []) then
        fst (scanNumber (c # cs)) # lex (drop (snd (scanNumber (c # cs)) - 1) cs)
      else [TBeyond])"
  by pat_completeness auto
termination
  by (relation "measure length") (auto simp: less_Suc_eq_le length_dropWhile_le)

declare lex.simps [simp del]

subsection \<open>Parsing\<close>

text \<open>
  The grammar, in the order of binding: a primary expression is a literal, an identifier or
  a parenthesised expression; a call applies a primary expression or a call to a
  parenthesised argument list (of one expression at most, the comma being outside the
  model); unary \<^verbatim>\<open>+\<close> and \<^verbatim>\<open>-\<close>; \<^verbatim>\<open>*\<close> and \<^verbatim>\<open>/\<close>; \<^verbatim>\<open>+\<close> and \<^verbatim>\<open>-\<close>, the binary operators
  associating to the left.
\<close>

datatype binop = BAdd | BSub | BMul | BDiv

datatype expr =
  Lit jsnum | Var string | Neg expr | Pos expr | Bin binop expr expr
  | Call0 expr | Call1 expr expr

datatype opitem = OParen | OCall | OUnary bool | OBinary binop

fun prec :: "binop \<Rightarrow> nat" where
  "prec BAdd = 1"
| "prec BSub = 1"
| "prec BMul = 2"
| "prec BDiv = 2"

text \<open>An operator on the stack is applied before a binary operator of precedence \<open>p\<close> is
  pushed when it binds at least as tightly; a parenthesis stays.\<close>

fun pops :: "nat \<Rightarrow> opitem \<Rightarrow> bool" where
  "pops p OParen = False"
| "pops p OCall = False"
| "pops p (OUnary _) = True"
| "pops p (OBinary b) = (p \<le> prec b)"

fun applyOp :: "opitem \<Rightarrow> expr list \<Rightarrow> expr list option" where
  "applyOp (OUnary neg) (a # st) = Some ((if neg then Neg a else Pos a) # st)"
| "applyOp (OBinary b) (y # x # st) = Some (Bin b x y # st)"
| "applyOp _ _ = None"

fun reduce :: "nat \<Rightarrow> expr list \<Rightarrow> opitem list \<Rightarrow> (expr list \<times> opitem list) option" where
  "reduce p st [] = Some (st, [])"
| "reduce p st (i # os) =
     (if pops p i then
        (case applyOp i st of None \<Rightarrow> None | Some st' \<Rightarrow> reduce p st' os)
      else Some (st, i # os))"

text \<open>
  An operator-precedence parser: \<open>parse w st os ts\<close> reads the tokens \<open>ts\<close> with the
  operands \<open>st\<close> and the pending operators \<open>os\<close> on two stacks; \<open>w\<close> says that an operand
  is expected next. It throws at the first token that no continuation can make part of a
  program, and answers \<open>Beyond\<close> at the first token outside the model: a \<open>TBeyond\<close>, a
  slash where an operand is expected (a regular expression literal), an empty pair of
  parentheses before a \<open>TBeyond\<close> (the parameters of an arrow function).
\<close>

fun parse :: "bool \<Rightarrow> expr list \<Rightarrow> opitem list \<Rightarrow> token list \<Rightarrow> expr completion" where
  "parse True st os [] = Throw"
| "parse False st os [] =
     (case reduce 0 st os of
        Some ([e], []) \<Rightarrow> Normal e
      | Some (_, _ # _) \<Rightarrow> Throw
      | _ \<Rightarrow> Beyond)"
| "parse w st os (TBeyond # ts) = Beyond"
| "parse True st os (TNum n # ts) = parse False (Lit n # st) os ts"
| "parse True st os (TIdent x # ts) = parse False (Var x # st) os ts"
| "parse True st os (TLParen # ts) = parse True st (OParen # os) ts"
| "parse True st os (TPlus # ts) = parse True st (OUnary False # os) ts"
| "parse True st os (TMinus # ts) = parse True st (OUnary True # os) ts"
| "parse True st os (TRParen # ts) =
     (case os of
        OCall # os' \<Rightarrow>
          (case st of f # st' \<Rightarrow> parse False (Call0 f # st') os' ts | [] \<Rightarrow> Beyond)
      | OParen # os' \<Rightarrow> (case ts of TBeyond # _ \<Rightarrow> Beyond | _ \<Rightarrow> Throw)
      | _ \<Rightarrow> Throw)"
| "parse True st os (TSlash # ts) = Beyond"
| "parse True st os (TStar # ts) = Throw"
| "parse True st os (TColon # ts) = Throw"
| "parse False st os (TNum n # ts) = Throw"
| "parse False st os (TIdent x # ts) = Throw"
| "parse False st os (TColon # ts) = Throw"
| "parse False st os (TLParen # ts) = parse True st (OCall # os) ts"
| "parse False st os (TPlus # ts) =
     (case reduce (prec BAdd) st os of
        Some (st', os') \<Rightarrow> parse True st' (OBinary BAdd # os') ts
      | None \<Rightarrow> Beyond)"
| "parse False st os (TMinus # ts) =
     (case reduce (prec BSub) st os of
        Some (st', os') \<Rightarrow> parse True st' (OBinary BSub # os') ts
      | None \<Rightarrow> Beyond)"
| "parse False st os (TStar # ts) =
     (case reduce (prec BMul) st os of
        Some (st', os') \<Rightarrow> parse True st' (OBinary BMul # os') ts
      | None \<Rightarrow> Beyond)"
| "parse False st os (TSlash # ts) =
     (case reduce (prec BDiv) st os of
        Some (st', os') \<Rightarrow> parse True st' (OBinary BDiv # os') ts
      | None \<Rightarrow> Beyond)"
| "parse False st os (TRParen # ts) =
     (case reduce 0 st os of
        Some (st', OParen # os') \<Rightarrow> parse False st' os' ts
      | Some (a # f # st', OCall # os') \<Rightarrow> parse False (Call1 f a # st') os' ts
      | Some (_, []) \<Rightarrow> Throw
      | _ \<Rightarrow> Beyond)"

subsection \<open>Evaluation\<close>

text \<open>
  The operands are Numbers, so that \<^verbatim>\<open>+\<close> adds. The global object binds \<^verbatim>\<open>Infinity\<close> and
  \<^verbatim>\<open>NaN\<close> for good; what another identifier stands for depends on the page, and is left to
  \<open>Beyond\<close>. A call whose callee is a Number throws a \<^verbatim>\<open>TypeError\<close>, once the callee and the
  argument are evaluated.
\<close>

fun arith :: "binop \<Rightarrow> jsnum \<Rightarrow> jsnum \<Rightarrow> jsnum" where
  "arith BAdd a b = dadd a b"
| "arith BSub a b = dsub a b"
| "arith BMul a b = dmul a b"
| "arith BDiv a b = ddiv a b"

fun evalExpr :: "expr \<Rightarrow> jsnum completion" where
  "evalExpr (Lit n) = Normal n"
| "evalExpr (Var x) =
     (if x = ''Infinity'' then Normal (Infinity False)
      else if x = ''NaN'' then Normal NaN
      else Beyond)"
| "evalExpr (Neg a) =
     (case evalExpr a of Normal v \<Rightarrow> Normal (dneg v) | Throw \<Rightarrow> Throw | Beyond \<Rightarrow> Beyond)"
| "evalExpr (Pos a) = evalExpr a"
| "evalExpr (Bin b x y) =
     (case evalExpr x of
        Normal v \<Rightarrow>
          (case evalExpr y of
             Normal w \<Rightarrow> Normal (arith b v w)
           | Throw \<Rightarrow> Throw
           | Beyond \<Rightarrow> Beyond)
      | Throw \<Rightarrow> Throw
      | Beyond \<Rightarrow> Beyond)"
| "evalExpr (Call0 f) =
     (case evalExpr f of Normal v \<Rightarrow> Throw | Throw \<Rightarrow> Throw | Beyond \<Rightarrow> Beyond)"
| "evalExpr (Call1 f a) =
     (case evalExpr f of
        Normal v \<Rightarrow>
          (case evalExpr a of Normal w \<Rightarrow> Throw | Throw \<Rightarrow> Throw | Beyond \<Rightarrow> Beyond)
      | Throw \<Rightarrow> Throw
      | Beyond \<Rightarrow> Beyond)"

text \<open>
  \<^verbatim>\<open>String(Function(`"use strict"; return (${expr})`)())\<close>: the expression text is wrapped in
  parentheses, compiled, run, and the Number returned is printed.
\<close>

definition hostEval :: "string \<Rightarrow> string completion" where
  "hostEval expr =
     (case parse True [] [] (lex (''('' @ expr @ '')'')) of
        Normal e \<Rightarrow>
          (case evalExpr e of
             Normal v \<Rightarrow> Normal (toString v)
           | Throw \<Rightarrow> Throw
           | Beyond \<Rightarrow> Beyond)
      | Throw \<Rightarrow> Throw
      | Beyond \<Rightarrow> Beyond)"

section \<open>The sheet\<close>

text \<open>
  \<^verbatim>\<open>SpreadsheetData\<close> is an object from keys \<^verbatim>\<open>`${row}-${col}`\<close> to content strings.
\<close>

type_synonym SpreadsheetData = "string \<rightharpoonup> string"

text \<open>
  A row index is \<^verbatim>\<open>parseInt(rowNum) - 1\<close>. The code computes it, counts rows with \<^verbatim>\<open>r++\<close>
  and prints it into the key as a double; up to \<open>2\<^sup>5\<^sup>3\<close> all three are exact and the key
  holds the decimal digits. A row number beyond \<open>2\<^sup>5\<^sup>3\<close> is outside the model (\<open>None\<close>):
  there the double no longer counts, and a loop over such rows need not end.
\<close>

definition rowIdxOf :: "string \<Rightarrow> int option" where
  "rowIdxOf rowNum = (if digitsVal rowNum \<le> 2 ^ 53 then Some (digitsVal rowNum - 1) else None)"

text \<open>
  A column index is \<^verbatim>\<open>col.charCodeAt(0) - 65\<close>; \<open>None\<close> stands for the \<^verbatim>\<open>NaN\<close> of an empty
  \<^verbatim>\<open>col\<close>, which the regular expressions never pass.
\<close>

definition colIdxOf :: "string \<Rightarrow> int option" where
  "colIdxOf col = (case col of [] \<Rightarrow> None | c # _ \<Rightarrow> Some (code c - 65))"

definition cellKey :: "int \<Rightarrow> int option \<Rightarrow> string" where
  "cellKey r c = showInt r @ ''-'' @ (case c of None \<Rightarrow> ''NaN'' | Some i \<Rightarrow> showInt i)"

text \<open>\<^verbatim>\<open>data[key] || '0'\<close>: an absent and an empty entry both read as \<^verbatim>\<open>'0'\<close>.\<close>

definition cellOr0 :: "SpreadsheetData \<Rightarrow> string \<Rightarrow> string" where
  "cellOr0 data key = (case data key of None \<Rightarrow> ''0'' | Some v \<Rightarrow> if v = [] then ''0'' else v)"

text \<open>\<^verbatim>\<open>getCellValue\<close> of \<^verbatim>\<open>App.tsx\<close>: \<^verbatim>\<open>spreadsheetData[key] || ''\<close>.\<close>

definition getCellValue :: "SpreadsheetData \<Rightarrow> int \<Rightarrow> int \<Rightarrow> string" where
  "getCellValue data row col = (case data (cellKey row (Some col)) of None \<Rightarrow> [] | Some v \<Rightarrow> v)"

section \<open>\<^verbatim>\<open>replace\<close> with a global regular expression\<close>

text \<open>
  \<open>replaceAll m s\<close> scans \<open>s\<close> from the left. Where the expression matches, \<open>m\<close> gives
  the length of the match and what the callback returns for its groups; the replacement is
  put out and the scan goes on after the match. Elsewhere the character is kept. The result
  is \<open>None\<close> when a callback's is.
\<close>

fun replaceAll :: "(string \<Rightarrow> (nat \<times> string option) option) \<Rightarrow> string \<Rightarrow> string option" where
  "replaceAll m [] = Some []"
| "replaceAll m (c # cs) =
     (case m (c # cs) of
        None \<Rightarrow> map_option ((#) c) (replaceAll m cs)
      | Some (n, None) \<Rightarrow> None
      | Some (n, Some rep) \<Rightarrow> map_option ((@) rep) (replaceAll m (drop (n - 1) cs)))"

text \<open>
  \<^verbatim>\<open>/([A-Z]+)(\d+)/\<close> at the head of a string: the two groups. Both runs are greedy, and
  giving back a letter or a digit never helps the match.
\<close>

definition matchCellRef :: "string \<Rightarrow> (string \<times> string) option" where
  "matchCellRef s =
     (let col = takeWhile isUpper s;
          rowNum = takeWhile isDigit (dropWhile isUpper s)
      in if col \<noteq> [] \<and> rowNum \<noteq> [] then Some (col, rowNum) else None)"

text \<open>
  \<^verbatim>\<open>/NAME\(([A-Z]+)(\d+):([A-Z]+)(\d+)\)/i\<close> at the head of a string, for \<open>name\<close> in capitals:
  the four groups and the length of the match.
\<close>

definition matchRangeCall :: "string \<Rightarrow> string \<Rightarrow> ((string \<times> string \<times> string \<times> string) \<times> nat) option" where
  "matchRangeCall name s =
     (let r0 = drop (length name) s;
          startCol = takeWhile isAlpha (drop 1 r0);
          r1 = dropWhile isAlpha (drop 1 r0);
          startRow = takeWhile isDigit r1;
          r2 = dropWhile isDigit r1;
          endCol = takeWhile isAlpha (drop 1 r2);
          r3 = dropWhile isAlpha (drop 1 r2);
          endRow = takeWhile isDigit r3;
          r4 = dropWhile isDigit r3
      in if map toUpperAscii (take (length name) s) = name
            \<and> startsWith ''('' r0 \<and> startCol \<noteq> [] \<and> startRow \<noteq> []
            \<and> startsWith '':'' r2 \<and> endCol \<noteq> [] \<and> endRow \<noteq> []
            \<and> startsWith '')'' r4
         then Some ((startCol, startRow, endCol, endRow),
                    length name + 1 + length startCol + length startRow + 1
                      + length endCol + length endRow + 1)
         else None)"

section \<open>\<^verbatim>\<open>evaluateFormula\<close>\<close>

text \<open>The callback of the cell-reference pass.\<close>

definition cellRefReplacement :: "SpreadsheetData \<Rightarrow> string \<Rightarrow> string \<Rightarrow> string option" where
  "cellRefReplacement data col rowNum =
     (case rowIdxOf rowNum of
        None \<Rightarrow> None
      | Some rowIdx \<Rightarrow>
          let key = cellKey rowIdx (colIdxOf col);
              cellValue = cellOr0 data key
          in if startsWith ''='' cellValue then Some ''0''
             else
               let numValue = parseFloat cellValue
               in Some (if isNaN numValue then ''0'' else toString numValue))"

definition cellRefPass :: "SpreadsheetData \<Rightarrow> string \<Rightarrow> string option" where
  "cellRefPass data =
     replaceAll (\<lambda>s. case matchCellRef s of
        None \<Rightarrow> None
      | Some (col, rowNum) \<Rightarrow>
          Some (length col + length rowNum, cellRefReplacement data col rowNum))"

text \<open>The body of the two loops of the \<^verbatim>\<open>SUM\<close> callback, for the cell at row \<open>r\<close>, column \<open>c\<close>.\<close>

definition sumCell :: "SpreadsheetData \<Rightarrow> int \<Rightarrow> int \<Rightarrow> jsnum \<Rightarrow> jsnum" where
  "sumCell data r c acc =
     (let val = cellOr0 data (cellKey r (Some c))
      in if \<not> startsWith ''='' val then
           (let num = parseFloat val in if \<not> isNaN num then dadd acc num else acc)
         else acc)"

function sumCols :: "SpreadsheetData \<Rightarrow> int \<Rightarrow> int \<Rightarrow> int \<Rightarrow> jsnum \<Rightarrow> jsnum" where
  "sumCols data r c endColIdx acc =
     (if c \<le> endColIdx then sumCols data r (c + 1) endColIdx (sumCell data r c acc) else acc)"
  by pat_completeness auto
termination
  by (relation "measure (\<lambda>(data, r, c, endColIdx, acc). nat (endColIdx + 1 - c))") auto

declare sumCols.simps [simp del]

function sumRows :: "SpreadsheetData \<Rightarrow> int \<Rightarrow> int \<Rightarrow> int \<Rightarrow> int \<Rightarrow> jsnum \<Rightarrow> jsnum" where
  "sumRows data r endRowIdx startColIdx endColIdx acc =
     (if r \<le> endRowIdx
      then sumRows data (r + 1) endRowIdx startColIdx endColIdx
             (sumCols data r startColIdx endColIdx acc)
      else acc)"
  by pat_completeness auto
termination
  by (relation "measure (\<lambda>(data, r, endRowIdx, startColIdx, endColIdx, acc). nat (endRowIdx + 1 - r))")
    auto

declare sumRows.simps [simp del]

text \<open>
  The callback of the \<^verbatim>\<open>SUM\<close> pass. With a column index that is \<^verbatim>\<open>NaN\<close> the inner loop
  never runs and the acc stays \<open>0\<close>.
\<close>

definition sumReplacement ::
  "SpreadsheetData \<Rightarrow> string \<Rightarrow> string \<Rightarrow> string \<Rightarrow> string \<Rightarrow> string option" where
  "sumReplacement data startCol startRow endCol endRow =
     (case (rowIdxOf startRow, rowIdxOf endRow) of
        (Some startRowIdx, Some endRowIdx) \<Rightarrow>
          (case (colIdxOf startCol, colIdxOf endCol) of
             (Some startColIdx, Some endColIdx) \<Rightarrow>
               Some (toString (sumRows data startRowIdx endRowIdx startColIdx endColIdx zero))
           | _ \<Rightarrow> Some (toString zero))
      | _ \<Rightarrow> None)"

definition sumPass :: "SpreadsheetData \<Rightarrow> string \<Rightarrow> string option" where
  "sumPass data =
     replaceAll (\<lambda>s. case matchRangeCall ''SUM'' s of
        None \<Rightarrow> None
      | Some ((startCol, startRow, endCol, endRow), n) \<Rightarrow>
          Some (n, sumReplacement data startCol startRow endCol endRow))"

text \<open>The same for \<^verbatim>\<open>AVERAGE\<close>, with the pair of \<^verbatim>\<open>sum\<close> and \<^verbatim>\<open>count\<close>.\<close>

definition avgCell :: "SpreadsheetData \<Rightarrow> int \<Rightarrow> int \<Rightarrow> jsnum \<times> jsnum \<Rightarrow> jsnum \<times> jsnum" where
  "avgCell data r c acc =
     (let val = cellOr0 data (cellKey r (Some c))
      in if \<not> startsWith ''='' val then
           (let num = parseFloat val
            in if \<not> isNaN num then (dadd (fst acc) num, dadd (snd acc) one) else acc)
         else acc)"

function avgCols :: "SpreadsheetData \<Rightarrow> int \<Rightarrow> int \<Rightarrow> int \<Rightarrow> jsnum \<times> jsnum \<Rightarrow> jsnum \<times> jsnum" where
  "avgCols data r c endColIdx acc =
     (if c \<le> endColIdx then avgCols data r (c + 1) endColIdx (avgCell data r c acc) else acc)"
  by pat_completeness auto
termination
  by (relation "measure (\<lambda>(data, r, c, endColIdx, acc). nat (endColIdx + 1 - c))") auto

declare avgCols.simps [simp del]

function avgRows ::
  "SpreadsheetData \<Rightarrow> int \<Rightarrow> int \<Rightarrow> int \<Rightarrow> int \<Rightarrow> jsnum \<times> jsnum \<Rightarrow> jsnum \<times> jsnum" where
  "avgRows data r endRowIdx startColIdx endColIdx acc =
     (if r \<le> endRowIdx
      then avgRows data (r + 1) endRowIdx startColIdx endColIdx
             (avgCols data r startColIdx endColIdx acc)
      else acc)"
  by pat_completeness auto
termination
  by (relation "measure (\<lambda>(data, r, endRowIdx, startColIdx, endColIdx, acc). nat (endRowIdx + 1 - r))")
    auto

declare avgRows.simps [simp del]

definition avgResult :: "jsnum \<times> jsnum \<Rightarrow> string" where
  "avgResult acc =
     (if jsGreater (snd acc) zero then toString (ddiv (fst acc) (snd acc)) else ''0'')"

definition avgReplacement ::
  "SpreadsheetData \<Rightarrow> string \<Rightarrow> string \<Rightarrow> string \<Rightarrow> string \<Rightarrow> string option" where
  "avgReplacement data startCol startRow endCol endRow =
     (case (rowIdxOf startRow, rowIdxOf endRow) of
        (Some startRowIdx, Some endRowIdx) \<Rightarrow>
          (case (colIdxOf startCol, colIdxOf endCol) of
             (Some startColIdx, Some endColIdx) \<Rightarrow>
               Some (avgResult
                 (avgRows data startRowIdx endRowIdx startColIdx endColIdx (zero, zero)))
           | _ \<Rightarrow> Some (avgResult (zero, zero)))
      | _ \<Rightarrow> None)"

definition avgPass :: "SpreadsheetData \<Rightarrow> string \<Rightarrow> string option" where
  "avgPass data =
     replaceAll (\<lambda>s. case matchRangeCall ''AVERAGE'' s of
        None \<Rightarrow> None
      | Some ((startCol, startRow, endCol, endRow), n) \<Rightarrow>
          Some (n, avgReplacement data startCol startRow endCol endRow))"

text \<open>The three passes, in the order of the source: cell references, \<^verbatim>\<open>SUM\<close>, \<^verbatim>\<open>AVERAGE\<close>.\<close>

definition substitute :: "SpreadsheetData \<Rightarrow> string \<Rightarrow> string option" where
  "substitute data expr =
     (case cellRefPass data expr of
        None \<Rightarrow> None
      | Some e1 \<Rightarrow> (case sumPass data e1 of None \<Rightarrow> None | Some e2 \<Rightarrow> avgPass data e2))"

text \<open>
  \<^verbatim>\<open>evaluateFormula(formula, currentRow, currentCol, data)\<close>. The host's evaluation stands in
  a \<^verbatim>\<open>try\<close> whose \<^verbatim>\<open>catch\<close> returns \<^verbatim>\<open>'#ERROR'\<close>. The result is \<open>Beyond\<close> where a row number
  or the substituted text is outside the model.
\<close>

definition evaluateFormula :: "string \<Rightarrow> int \<Rightarrow> int \<Rightarrow> SpreadsheetData \<Rightarrow> string completion" where
  "evaluateFormula formula currentRow currentCol data =
     (if \<not> startsWith ''='' formula then Normal formula
      else
        let expr = trim (drop 1 formula)
        in case substitute data expr of
             None \<Rightarrow> Beyond
           | Some expr' \<Rightarrow>
               (case hostEval expr' of
                  Normal result \<Rightarrow> Normal result
                | Throw \<Rightarrow> Normal ''#ERROR''
                | Beyond \<Rightarrow> Beyond))"

text \<open>\<^verbatim>\<open>getDisplayValue(value, row, col)\<close> of the component, over its \<^verbatim>\<open>data\<close>.\<close>

definition getDisplayValue :: "SpreadsheetData \<Rightarrow> string \<Rightarrow> int \<Rightarrow> int \<Rightarrow> string completion" where
  "getDisplayValue data value row col =
     (if value = [] then Normal []
      else if startsWith ''='' value then
        (case evaluateFormula value row col data of
           Normal result \<Rightarrow> Normal result
         | Throw \<Rightarrow> Normal ''#ERROR''
         | Beyond \<Rightarrow> Beyond)
      else Normal value)"

section \<open>Notions used to state the properties\<close>

text \<open>The cells of a rectangle, by rows, as the two loops visit them.\<close>

definition rectKeys :: "int \<Rightarrow> int \<Rightarrow> int \<Rightarrow> int \<Rightarrow> string list" where
  "rectKeys r0 r1 c0 c1 = concat (map (\<lambda>r. map (\<lambda>c. cellKey r (Some c)) [c0..c1]) [r0..r1])"

text \<open>A content string adds to \<^verbatim>\<open>SUM\<close> and \<^verbatim>\<open>AVERAGE\<close> when it is no formula and parses.\<close>

definition contributes :: "string \<Rightarrow> bool" where
  "contributes v = (\<not> startsWith ''='' v \<and> \<not> isNaN (parseFloat v))"

definition avgStep :: "jsnum \<times> jsnum \<Rightarrow> string \<Rightarrow> jsnum \<times> jsnum" where
  "avgStep acc v =
     (if contributes v then (dadd (fst acc) (parseFloat v), dadd (snd acc) one) else acc)"

text \<open>The Number that \<^verbatim>\<open>count\<close> holds after \<open>n\<close> steps of \<^verbatim>\<open>count++\<close> from \<open>0\<close>.\<close>

definition countOf :: "nat \<Rightarrow> jsnum" where
  "countOf n = ((\<lambda>count. dadd count one) ^^ n) zero"

definition positive :: "jsnum \<Rightarrow> bool" where
  "positive x =
     (case x of NaN \<Rightarrow> False | Infinity s \<Rightarrow> \<not> s | Finite s m e \<Rightarrow> \<not> s \<and> 0 < m)"

text \<open>
  The column decoding that the specification describes, for comparison with \<open>colIdxOf\<close>:
  base 26 with no zero digit over the whole run of letters (\<open>A = 0\<close>, \<open>Z = 25\<close>,
  \<open>AA = 26\<close>).
\<close>

definition specColumnIndex :: "string \<Rightarrow> int" where
  "specColumnIndex letters = foldl (\<lambda>a c. 26 * a + (code c - 64)) 0 letters - 1"

text \<open>
  The average that the specification describes, for comparison with \<open>avgReplacement\<close>: an
  absent entry is read as the empty string, the cells whose content parses as a number are
  summed and counted, and with none of them the result is \<open>0\<close>.
\<close>

definition specContent :: "SpreadsheetData \<Rightarrow> string \<Rightarrow> string" where
  "specContent data key = (case data key of None \<Rightarrow> [] | Some v \<Rightarrow> v)"

definition specAverage :: "SpreadsheetData \<Rightarrow> string list \<Rightarrow> string" where
  "specAverage data keys =
     (let nums = filter (\<lambda>n. \<not> isNaN n) (map (\<lambda>k. parseFloat (specContent data k)) keys)
      in if nums = [] then ''0''
         else toString (ddiv (foldl dadd zero nums) (countOf (length nums))))"

section \<open>Example sheets\<close>

definition emptySheet :: SpreadsheetData where
  "emptySheet = map_of []"

definition sheetA :: SpreadsheetData where
  "sheetA = map_of [(''0-0'', ''3'')]"

definition sheetB :: SpreadsheetData where
  "sheetB = map_of [(''0-0'', ''5'')]"

definition sheetC :: SpreadsheetData where
  "sheetC = map_of [(''0-32'', ''4'')]"

definition sheetCircular :: SpreadsheetData where
  "sheetCircular = map_of [(''0-0'', ''=B1''), (''0-1'', ''=A1'')]"

definition sheetSum :: SpreadsheetData where
  "sheetSum = map_of [(''0-0'', ''1''), (''1-0'', ''2''), (''2-0'', ''x'')]"

definition sheetD :: SpreadsheetData where
  "sheetD = map_of [(''0-0'', ''4'')]"

definition sheetE :: SpreadsheetData where
  "sheetE = map_of [(''0-0'', ''4''), (''1-0'', ''6'')]"

definition sheetF :: SpreadsheetData where
  "sheetF = map_of [(''0-32'', ''5'')]"

section \<open>The sheet is read through \<open>cellOr0\<close> only\<close>

text \<open>
  Two sheets that agree on which cells hold formulas, and on the content of the other
  cells as \<open>cellOr0\<close> reads it, give every formula the same result.
\<close>

lemma sumCols_cong:
  "(\<And>r c acc. sumCell d1 r c acc = sumCell d2 r c acc) \<Longrightarrow>
   sumCols d1 r c e acc = sumCols d2 r c e acc"
proof (induction d1 r c e acc rule: sumCols.induct)
  case (1 data r c e acc)
  then show ?case
    by (simp add: sumCols.simps [of _ r c])
qed

lemma sumRows_cong:
  "(\<And>r c acc. sumCell d1 r c acc = sumCell d2 r c acc) \<Longrightarrow>
   sumRows d1 r e c0 c1 acc = sumRows d2 r e c0 c1 acc"
proof (induction d1 r e c0 c1 acc rule: sumRows.induct)
  case (1 data r e c0 c1 acc)
  have inner: "\<And>acc. sumCols data r c0 c1 acc = sumCols d2 r c0 c1 acc"
    using "1.prems" by (rule sumCols_cong)
  from 1 inner show ?case
    by (simp add: sumRows.simps [of _ r e])
qed

lemma avgCols_cong:
  "(\<And>r c acc. avgCell d1 r c acc = avgCell d2 r c acc) \<Longrightarrow>
   avgCols d1 r c e acc = avgCols d2 r c e acc"
proof (induction d1 r c e acc rule: avgCols.induct)
  case (1 data r c e acc)
  then show ?case
    by (simp add: avgCols.simps [of _ r c])
qed

lemma avgRows_cong:
  "(\<And>r c acc. avgCell d1 r c acc = avgCell d2 r c acc) \<Longrightarrow>
   avgRows d1 r e c0 c1 acc = avgRows d2 r e c0 c1 acc"
proof (induction d1 r e c0 c1 acc rule: avgRows.induct)
  case (1 data r e c0 c1 acc)
  have inner: "\<And>acc. avgCols data r c0 c1 acc = avgCols d2 r c0 c1 acc"
    using "1.prems" by (rule avgCols_cong)
  from 1 inner show ?case
    by (simp add: avgRows.simps [of _ r e])
qed

lemma evaluateFormula_cong:
  assumes f: "\<And>k. startsWith ''='' (cellOr0 d1 k) = startsWith ''='' (cellOr0 d2 k)"
    and v: "\<And>k. \<not> startsWith ''='' (cellOr0 d1 k) \<Longrightarrow> cellOr0 d1 k = cellOr0 d2 k"
  shows "evaluateFormula formula row col d1 = evaluateFormula formula row col d2"
proof -
  have ref: "cellRefReplacement d1 = cellRefReplacement d2"
    using f v by (auto simp: cellRefReplacement_def fun_eq_iff Let_def split: option.splits)
  have sc: "\<And>r c acc. sumCell d1 r c acc = sumCell d2 r c acc"
    using f v by (auto simp: sumCell_def Let_def)
  have ac: "\<And>r c acc. avgCell d1 r c acc = avgCell d2 r c acc"
    using f v by (auto simp: avgCell_def Let_def)
  have sr: "sumReplacement d1 = sumReplacement d2"
    by (auto simp: sumReplacement_def fun_eq_iff sumRows_cong [of d1 d2, OF sc] split: option.splits)
  have ar: "avgReplacement d1 = avgReplacement d2"
    by (auto simp: avgReplacement_def fun_eq_iff avgRows_cong [of d1 d2, OF ac] split: option.splits)
  have passes: "cellRefPass d1 = cellRefPass d2" "sumPass d1 = sumPass d2" "avgPass d1 = avgPass d2"
    unfolding cellRefPass_def sumPass_def avgPass_def ref sr ar by (rule refl)+
  have "substitute d1 = substitute d2"
    unfolding substitute_def passes by (rule refl)
  then show ?thesis
    by (simp add: evaluateFormula_def)
qed

section \<open>Counting with Numbers\<close>

text \<open>A \<^verbatim>\<open>count\<close> that has been incremented is greater than \<open>0\<close>.\<close>

lemma bitlen_lower: "0 < v \<Longrightarrow> 2 ^ (bitlen v - 1) \<le> v"
proof (induction v rule: bitlen.induct)
  case (1 n)
  show ?case
  proof (cases "n = 1")
    case True
    then show ?thesis
      by (simp add: bitlen.simps [of 1] bitlen.simps [of 0])
  next
    case False
    with "1.prems" have big: "0 < n div 2" "\<not> n \<le> 0"
      by auto
    from "1.IH" [OF big(2) big(1)] have ih: "2 ^ (bitlen (n div 2) - 1) \<le> n div 2" .
    have pos: "0 < bitlen (n div 2)"
      using big(1) by (simp add: bitlen.simps [of "n div 2"])
    have "bitlen n = Suc (bitlen (n div 2))"
      using big(2) by (simp add: bitlen.simps [of n])
    then have "(2::int) ^ (bitlen n - 1) = 2 * 2 ^ (bitlen (n div 2) - 1)"
      using pos by (cases "bitlen (n div 2)") simp_all
    also have "\<dots> \<le> 2 * (n div 2)"
      using ih by simp
    also have "\<dots> \<le> n"
      by simp
    finally show ?thesis .
  qed
qed

lemma pack_positive: "0 < q \<Longrightarrow> positive (pack False q e)"
  by (simp add: pack_def positive_def)

lemma fl_positive:
  assumes v: "0 < v" and big: "2 ^ nat (- g) \<le> v"
  shows "positive (fl False v g)"
proof -
  define sh where "sh = max (int (bitlen v) - 53) (- 1074 - g)"
  show ?thesis
  proof (cases "sh \<le> 0")
    case True
    have "0 < v * 2 ^ nat (- sh)"
      using v by simp
    then show ?thesis
      using v True by (simp add: fl_def sh_def [symmetric] Let_def pack_positive)
  next
    case False
    have le: "(2::int) ^ nat sh \<le> v"
    proof (cases "int (bitlen v) - 53 \<le> - 1074 - g")
      case True
      then have "sh = - 1074 - g"
        by (simp add: sh_def)
      then have "(2::int) ^ nat sh \<le> 2 ^ nat (- g)"
        by (intro power_increasing) auto
      from this big show ?thesis
        by (rule order_trans)
    next
      case False
      then have "sh = int (bitlen v) - 53"
        by (simp add: sh_def)
      then have "(2::int) ^ nat sh \<le> 2 ^ (bitlen v - 1)"
        by (intro power_increasing) auto
      from this bitlen_lower [OF v] show ?thesis
        by (rule order_trans)
    qed
    have "0 < v div 2 ^ nat sh"
      using le by (simp add: pos_imp_zdiv_pos_iff)
    then show ?thesis
      using v False by (simp add: fl_def sh_def [symmetric] Let_def pack_positive)
  qed
qed

lemma increment_positive:
  assumes "x = zero \<or> positive x"
  shows "positive (dadd x one)"
proof (cases x)
  case NaN
  with assms show ?thesis
    by (simp add: zero_def positive_def)
next
  case (Infinity s)
  with assms show ?thesis
    by (simp add: zero_def positive_def one_def)
next
  case (Finite s m e)
  with assms have s: "\<not> s" and m: "0 \<le> m"
    by (auto simp: zero_def positive_def)
  show ?thesis
  proof (cases "m = 0")
    case True
    then show ?thesis
      by (simp add: Finite one_def positive_def)
  next
    case False
    define g where "g = min e (- 52)"
    define v where "v = m * 2 ^ nat (e - g) + 2 ^ 52 * 2 ^ nat (- 52 - g)"
    have g: "g \<le> - 52"
      by (simp add: g_def)
    have "nat (- g) = 52 + nat (- 52 - g)"
      using g by simp
    then have "(2::int) ^ nat (- g) = 2 ^ 52 * 2 ^ nat (- 52 - g)"
      by (simp add: power_add)
    moreover have "0 \<le> m * 2 ^ nat (e - g)"
      using m by simp
    ultimately have big: "2 ^ nat (- g) \<le> v"
      by (simp add: v_def)
    have pos: "0 < v"
      using big by (smt (verit) zero_less_power)
    have "dadd x one = fl False v g"
      using pos s False by (simp add: Finite one_def g_def v_def signed_def Let_def)
    with fl_positive [OF pos big] show ?thesis
      by simp
  qed
qed

lemma countOf_positive: "positive (countOf (Suc n))"
proof (induction n)
  case 0
  show ?case
    using increment_positive [of zero] by (simp add: countOf_def)
next
  case (Suc n)
  from increment_positive [of "countOf (Suc n)"] Suc show ?case
    by (simp add: countOf_def)
qed

lemma positive_greater_zero: "positive x \<Longrightarrow> jsGreater x zero"
  by (cases x) (auto simp: positive_def zero_def signed_def)

lemma zero_not_greater: "\<not> jsGreater zero zero"
  by (simp add: zero_def signed_def)

lemma countOf_greater: "jsGreater (countOf n) zero = (0 < n)"
proof (cases n)
  case 0
  then show ?thesis
    by (simp add: countOf_def zero_not_greater)
next
  case (Suc k)
  then show ?thesis
    using positive_greater_zero [OF countOf_positive [of k]] by simp
qed

section \<open>The loops over a range\<close>

lemma toString_zero: "toString zero = ''0''"
  by code_simp

lemma sumCols_empty: "e < c \<Longrightarrow> sumCols data r c e acc = acc"
  by (simp add: sumCols.simps [of data r c])

lemma avgCols_empty: "e < c \<Longrightarrow> avgCols data r c e acc = acc"
  by (simp add: avgCols.simps [of data r c])

lemma sumRows_no_rows: "e < r \<Longrightarrow> sumRows data r e c0 c1 acc = acc"
  by (simp add: sumRows.simps [of data r e])

lemma avgRows_no_rows: "e < r \<Longrightarrow> avgRows data r e c0 c1 acc = acc"
  by (simp add: avgRows.simps [of data r e])

lemma sumRows_no_cols: "c1 < c0 \<Longrightarrow> sumRows data r e c0 c1 acc = acc"
proof (induction data r e c0 c1 acc rule: sumRows.induct)
  case (1 data r endRowIdx startColIdx endColIdx acc)
  then show ?case
    by (simp add: sumRows.simps [of data r endRowIdx] sumCols_empty)
qed

lemma avgRows_no_cols: "c1 < c0 \<Longrightarrow> avgRows data r e c0 c1 acc = acc"
proof (induction data r e c0 c1 acc rule: avgRows.induct)
  case (1 data r endRowIdx startColIdx endColIdx acc)
  then show ?case
    by (simp add: avgRows.simps [of data r endRowIdx] avgCols_empty)
qed

lemma avgCell_step: "avgCell data r c acc = avgStep acc (cellOr0 data (cellKey r (Some c)))"
  by (simp add: avgCell_def avgStep_def contributes_def Let_def)

lemma avgCols_fold:
  "avgCols data r c e acc =
     foldl avgStep acc (map (\<lambda>c. cellOr0 data (cellKey r (Some c))) [c..e])"
proof (induction data r c e acc rule: avgCols.induct)
  case (1 data r c endColIdx acc)
  show ?case
  proof (cases "c \<le> endColIdx")
    case True
    then have "[c..endColIdx] = c # [c + 1..endColIdx]"
      by (simp add: upto_rec1)
    with True "1.IH" show ?thesis
      by (simp add: avgCols.simps [of data r c] avgCell_step)
  next
    case False
    then show ?thesis
      by (simp add: avgCols.simps [of data r c])
  qed
qed

lemma avgRows_fold:
  "avgRows data r e c0 c1 acc = foldl avgStep acc (map (cellOr0 data) (rectKeys r e c0 c1))"
proof (induction data r e c0 c1 acc rule: avgRows.induct)
  case (1 data r endRowIdx startColIdx endColIdx acc)
  show ?case
  proof (cases "r \<le> endRowIdx")
    case True
    then have "[r..endRowIdx] = r # [r + 1..endRowIdx]"
      by (simp add: upto_rec1)
    with True "1.IH" show ?thesis
      by (simp add: avgRows.simps [of data r endRowIdx] avgCols_fold rectKeys_def comp_def)
  next
    case False
    then show ?thesis
      by (simp add: avgRows.simps [of data r endRowIdx] rectKeys_def)
  qed
qed

lemma increments_swap:
  "((\<lambda>count. dadd count one) ^^ k) (dadd n one) =
     dadd (((\<lambda>count. dadd count one) ^^ k) n) one"
  using funpow_swap1 [of "\<lambda>count. dadd count one" k n] by simp

lemma foldl_avgStep:
  "foldl avgStep (s, n) vs =
     (foldl dadd s (map parseFloat (filter contributes vs)),
      ((\<lambda>count. dadd count one) ^^ length (filter contributes vs)) n)"
proof (induction vs arbitrary: s n)
  case Nil
  show ?case by simp
next
  case (Cons v vs)
  have "avgStep (s, n) v =
      (if contributes v then (dadd s (parseFloat v), dadd n one) else (s, n))"
    by (simp add: avgStep_def)
  then show ?case
    by (simp add: Cons.IH increments_swap)
qed

section \<open>Printed numbers\<close>

text \<open>
  The digits that \<open>showNat\<close> prints, and the bounds that make the digits of
  \<open>toString\<close> a positive integer without a leading zero.
\<close>


lemma code_nat: "code c = int (of_char c)"
  by (simp add: code_def of_nat_of_char)

lemma code_less: "0 \<le> code c" "code c < 256"
  by (simp_all add: code_nat)

lemma code_char_of: "0 \<le> n \<Longrightarrow> n < 256 \<Longrightarrow> code (char_of n) = n"
  by (simp add: code_def)

lemma isDigit_char_of: "0 \<le> d \<Longrightarrow> d < 10 \<Longrightarrow> isDigit (char_of (48 + (d::int)))"
  by (simp add: isDigit_def code_char_of)

lemma showNat_digits: "0 \<le> n \<Longrightarrow> list_all isDigit (showNat n) \<and> showNat n \<noteq> []"
proof (induction n rule: showNat.induct)
  case (1 n)
  show ?case
  proof (cases "n < 10")
    case True
    with "1.prems" show ?thesis
      by (simp add: showNat.simps [of n] isDigit_char_of)
  next
    case False
    with "1.prems" "1.IH" have "list_all isDigit (showNat (n div 10)) \<and> showNat (n div 10) \<noteq> []"
      by simp
    moreover have "isDigit (char_of (48 + n mod 10))"
      by (rule isDigit_char_of) simp_all
    ultimately show ?thesis
      using False by (simp add: showNat.simps [of n])
  qed
qed

lemma showNat_no_leading_zero: "1 \<le> n \<Longrightarrow> \<not> startsWith ''0'' (showNat n)"
proof (induction n rule: showNat.induct)
  case (1 n)
  show ?case
  proof (cases "n < 10")
    case True
    have "code (char_of (48 + n)) = 48 + n"
      using True "1.prems" by (intro code_char_of) simp_all
    moreover have "code CHR ''0'' = 48"
      by (simp add: code_def)
    ultimately have "char_of (48 + n) \<noteq> CHR ''0''"
      using "1.prems" by auto
    with True show ?thesis
      by (simp add: showNat.simps [of n] startsWith_def)
  next
    case False
    with "1.prems" "1.IH" have ih: "\<not> startsWith ''0'' (showNat (n div 10))"
      by simp
    have ne: "showNat (n div 10) \<noteq> []"
      using showNat_digits [of "n div 10"] False by simp
    from ih ne False show ?thesis
      by (cases "showNat (n div 10)") (simp_all add: showNat.simps [of n] startsWith_def)
  qed
qed

lemma ndigits_lower: "1 \<le> m \<Longrightarrow> 10 ^ (ndigits m - 1) \<le> m"
proof (induction m rule: ndigits.induct)
  case (1 n)
  show ?case
  proof (cases "n < 10")
    case True
    with "1.prems" show ?thesis
      by (simp add: ndigits.simps [of n])
  next
    case False
    with "1.IH" have "10 ^ (ndigits (n div 10) - 1) \<le> n div 10"
      by simp
    moreover have "0 < ndigits (n div 10)"
      by (simp add: ndigits.simps [of "n div 10"])
    ultimately have "(10::int) ^ ndigits (n div 10) \<le> 10 * (n div 10)"
      by (cases "ndigits (n div 10)") simp_all
    also have "\<dots> \<le> n"
      by simp
    finally show ?thesis
      using False by (simp add: ndigits.simps [of n])
  qed
qed

lemma lead0_upper: "0 < a \<Longrightarrow> b \<le> a * 10 ^ (lead0 a b + 1)"
proof (induction a b rule: lead0.induct)
  case (1 a b)
  show ?case
  proof (cases "b \<le> 10 * a")
    case True
    then show ?thesis
      by (simp add: lead0.simps [of a b])
  next
    case False
    with "1.prems" "1.IH" have "b \<le> 10 * a * 10 ^ (lead0 (10 * a) b + 1)"
      by simp
    with False "1.prems" show ?thesis
      by (simp add: lead0.simps [of a b] mult.assoc)
  qed
qed

lemma around_lower:
  assumes a: "0 < a" and b: "0 < b" and k: "1 \<le> k"
  shows "1 \<le> fst (around a b (decExp a b - int k))"
proof -
  define p where "p = decExp a b - int k"
  have goal: "(if 0 \<le> p then b * 10 ^ nat p else b) \<le> (if 0 \<le> p then a else a * 10 ^ nat (- p))"
  proof (cases "b \<le> a")
    case True
    define n where "n = ndigits (a div b)"
    have q: "1 \<le> a div b"
      using True b by (simp add: pos_imp_zdiv_pos_iff int_one_le_iff_zero_less)
    have n: "decExp a b = int n"
      using True by (simp add: decExp_def n_def)
    have "10 ^ (n - 1) \<le> a div b"
      unfolding n_def using q by (rule ndigits_lower)
    then have "b * 10 ^ (n - 1) \<le> b * (a div b)"
      using b by simp
    also have "\<dots> \<le> a"
      using b by (simp add: minus_mod_eq_mult_div [symmetric])
    finally have low: "b * 10 ^ (n - 1) \<le> a" .
    show ?thesis
    proof (cases "0 \<le> p")
      case True
      have "nat p \<le> n - 1"
        using k n by (simp add: p_def)
      then have "(10::int) ^ nat p \<le> 10 ^ (n - 1)"
        by (intro power_increasing) simp_all
      then have "b * 10 ^ nat p \<le> b * 10 ^ (n - 1)"
        using b by simp
      with low True show ?thesis
        by simp
    next
      case False
      have "(1::int) \<le> 10 ^ nat (- p)"
        by simp
      then have "a * 1 \<le> a * 10 ^ nat (- p)"
        using a by (intro mult_left_mono) simp_all
      with \<open>b \<le> a\<close> False show ?thesis
        by simp
    qed
  next
    case False
    define j where "j = lead0 a b"
    have n: "decExp a b = - int j"
      using False by (simp add: decExp_def j_def)
    have neg: "\<not> 0 \<le> p"
      using k n by (simp add: p_def)
    have e: "nat (- p) = j + k"
      using n by (simp add: p_def)
    have "b \<le> a * 10 ^ (j + 1)"
      unfolding j_def using a by (rule lead0_upper)
    also have "(10::int) ^ (j + 1) \<le> 10 ^ (j + k)"
      using k by (intro power_increasing) simp_all
    then have "a * 10 ^ (j + 1) \<le> a * 10 ^ (j + k)"
      using a by (intro mult_left_mono) simp_all
    finally show ?thesis
      using neg e by simp
  qed
  have d: "0 < (if 0 \<le> p then b * 10 ^ nat p else b)"
    using b by simp
  from goal d have "1 \<le> (if 0 \<le> p then a else a * 10 ^ nat (- p)) div (if 0 \<le> p then b * 10 ^ nat p else b)"
    by (simp add: pos_imp_zdiv_pos_iff int_one_le_iff_zero_less)
  then have "1 \<le> fst (around a b p)"
    by (simp add: around_def Let_def)
  then show ?thesis
    by (simp only: p_def)
qed

lemma nearer_lower: "fst t \<le> nearer t"
  by (cases t) (simp add: nearer_def)

lemma digitsAt_lower: "digitsAt x a b n k = Some s \<Longrightarrow> fst (around a b (n - int k)) \<le> s"
  using nearer_lower [of "around a b (n - int k)"]
  by (auto simp: digitsAt_def Let_def split: if_splits)

lemma shortest_lower:
  assumes a: "0 < a" and b: "0 < b"
  shows "1 \<le> k \<Longrightarrow> 1 \<le> snd (shortest fuel x a b (decExp a b) k)"
proof (induction fuel arbitrary: k)
  case 0
  from around_lower [OF a b, of k] 0 nearer_lower [of "around a b (decExp a b - int k)"]
  show ?case
    by simp
next
  case (Suc fuel)
  show ?case
  proof (cases "digitsAt x a b (decExp a b) k")
    case None
    with Suc.IH [of "Suc k"] Suc.prems show ?thesis
      by simp
  next
    case (Some s)
    from digitsAt_lower [OF Some] around_lower [OF a b, of k] Suc.prems have "1 \<le> s"
      by simp
    with Some show ?thesis
      by simp
  qed
qed

lemma pack_mantissa: "0 \<le> q \<Longrightarrow> pack s q e = Finite t m x \<Longrightarrow> 0 \<le> m"
  by (auto simp: pack_def split: if_splits)

lemma fl_mantissa: "fl s v e = Finite t m x \<Longrightarrow> 0 \<le> m"
proof (cases "v \<le> 0")
  case True
  assume "fl s v e = Finite t m x"
  with True show ?thesis
    by (simp add: fl_def)
next
  case False
  assume r: "fl s v e = Finite t m x"
  define sh where "sh = max (int (bitlen v) - 53) (- 1074 - e)"
  show ?thesis
  proof (cases "sh \<le> 0")
    case True
    with r False have "pack s (v * 2 ^ nat (- sh)) (e + sh) = Finite t m x"
      by (simp add: fl_def sh_def [symmetric] Let_def)
    moreover have "0 \<le> v * 2 ^ nat (- sh)"
      using False by simp
    ultimately show ?thesis
      by (rule pack_mantissa [rotated])
  next
    case sh: False
    define q where "q = v div 2 ^ nat sh"
    have q: "0 \<le> q"
      using False by (simp add: q_def pos_imp_zdiv_nonneg_iff)
    from r False sh have "pack s q (e + sh) = Finite t m x \<or> pack s (q + 1) (e + sh) = Finite t m x"
      by (simp add: fl_def sh_def [symmetric] q_def [symmetric] Let_def split: if_splits)
    with q show ?thesis
      using pack_mantissa [of q s "e + sh" t m x] pack_mantissa [of "q + 1" s "e + sh" t m x]
      by auto
  qed
qed

lemma decToNum_mantissa: "decToNum s d p = Finite t m x \<Longrightarrow> 0 \<le> m"
  by (auto simp: decToNum_def roundQuot_def Let_def dest: fl_mantissa split: if_splits)

lemma parseFloat_mantissa: "parseFloat v = Finite s m e \<Longrightarrow> 0 \<le> m"
  by (auto simp: parseFloat_def unsignedLiteral_def Let_def dest: decToNum_mantissa
      split: list.splits if_splits)

section \<open>A printed number in an expression text\<close>

text \<open>
  What \<open>toString\<close> prints is read back by the host as one numeric literal, or as
  \<^verbatim>\<open>Infinity\<close>, with a sign before it when negative; it holds no parenthesis.
\<close>


lemma takeWhile_run:
  "list_all P xs \<Longrightarrow> ys = [] \<or> \<not> P (hd ys) \<Longrightarrow> takeWhile P (xs @ ys) = xs"
  by (induction xs) (auto simp: takeWhile_eq_Nil_iff intro: hd_in_set)

lemma dropWhile_run:
  "list_all P xs \<Longrightarrow> ys = [] \<or> \<not> P (hd ys) \<Longrightarrow> dropWhile P (xs @ ys) = ys"
  by (induction xs) (auto simp: dropWhile_eq_self_iff)

lemma digit_is_plain:
  assumes "isDigit c"
  shows "\<not> isJsSpace c" "c \<noteq> CHR ''(''" "c \<noteq> CHR '')''" "c \<noteq> CHR '':''" "c \<noteq> CHR ''+''"
    "c \<noteq> CHR ''-''" "c \<noteq> CHR ''*''" "c \<noteq> CHR ''/''" "\<not> isIdStart c" "c \<noteq> CHR ''.''"
    "c \<noteq> CHR ''e''" "c \<noteq> CHR ''E''"
  using assms
  by (auto simp: isDigit_def isJsSpace_def isIdStart_def isAlpha_def isUpper_def isLower_def code_def)

lemma lex_tail: "lex ''+)'' = [TPlus, TRParen]"
  by code_simp

lemma scanExponent_none: "scanExponent ''+)'' = (0, 0)"
  by code_simp

lemma scanExponent_some:
  assumes "sg = CHR ''+'' \<or> sg = CHR ''-''" "list_all isDigit ed" "ed \<noteq> []"
  shows "snd (scanExponent (CHR ''e'' # sg # ed @ ''+)'')) = 2 + length ed"
proof -
  have "takeWhile isDigit (ed @ ''+)'') = ed"
    using assms(2) by (intro takeWhile_run) (simp_all add: isDigit_def code_def)
  with assms show ?thesis
    by (auto simp: scanExponent_def)
qed

lemma after_plus:
  "\<not> (case ''+)'' of [] \<Rightarrow> False | c # _ \<Rightarrow> isIdStart c \<or> c = CHR 0x5C \<or> 128 \<le> code c)"
  by (simp add: isIdStart_def isAlpha_def isUpper_def isLower_def code_def)

lemma scanNumber_shape:
  assumes ip: "list_all isDigit ip" "ip \<noteq> []" "length ip = 1 \<or> \<not> startsWith ''0'' ip"
    and fr: "frac = [] \<or> (\<exists>fp. frac = CHR ''.'' # fp \<and> list_all isDigit fp)"
    and ex: "expo = [] \<or> (\<exists>sg ed. expo = CHR ''e'' # sg # ed \<and> (sg = CHR ''+'' \<or> sg = CHR ''-'')
        \<and> list_all isDigit ed \<and> ed \<noteq> [])"
  shows "\<exists>x. scanNumber (ip @ frac @ expo @ ''+)'') = (TNum x, length (ip @ frac @ expo))"
proof -
  define r2 where "r2 = expo @ ''+)''"
  have r2: "r2 \<noteq> []" "\<not> isDigit (hd r2)" "\<not> startsWith ''.'' r2"
    using ex by (auto simp: r2_def isDigit_def code_def startsWith_def)
  have lead: "\<not> (1 < length ip \<and> startsWith ''0'' ip)"
    using ip(3) by auto
  have len: "snd (scanExponent r2) = length expo"
  proof (cases "expo = []")
    case True
    then show ?thesis
      by (simp add: r2_def scanExponent_none)
  next
    case False
    with ex obtain sg ed where e: "expo = CHR ''e'' # sg # ed" "sg = CHR ''+'' \<or> sg = CHR ''-''"
      "list_all isDigit ed" "ed \<noteq> []"
      by auto
    from scanExponent_some [OF e(2-4)] show ?thesis
      by (simp add: r2_def e(1))
  qed
  then have expo: "snd (scanExponent r2) = length expo" "drop (snd (scanExponent r2)) r2 = ''+)''"
    by (simp_all add: r2_def)
  show ?thesis
  proof (cases "frac = []")
    case True
    have tw1: "takeWhile isDigit (ip @ r2) = ip" "dropWhile isDigit (ip @ r2) = r2"
      using ip(1) r2 by (simp_all add: takeWhile_run dropWhile_run)
    have "scanNumber (ip @ r2) =
        (TNum (decToNum False (digitsVal (ip @ [])) (fst (scanExponent r2) - int (length ([]::string)))),
         length ip + 0 + length expo)"
      using tw1 r2(3) lead expo after_plus
      by (simp add: scanNumber_def Let_def)
    then show ?thesis
      by (auto simp: r2_def True)
  next
    case False
    with fr obtain fp where fp: "frac = CHR ''.'' # fp" "list_all isDigit fp"
      by auto
    define r1 where "r1 = CHR ''.'' # fp @ r2"
    have r1: "r1 \<noteq> []" "\<not> isDigit (hd r1)"
      by (simp_all add: r1_def isDigit_def code_def)
    have tw: "takeWhile isDigit (ip @ r1) = ip" "dropWhile isDigit (ip @ r1) = r1"
      using ip(1) r1 by (simp_all add: takeWhile_run dropWhile_run)
    have dot: "startsWith ''.'' r1" "drop 1 r1 = fp @ r2"
      by (simp_all add: r1_def startsWith_def)
    have tw2: "takeWhile isDigit (fp @ r2) = fp" "dropWhile isDigit (fp @ r2) = r2"
      using fp(2) r2 by (simp_all add: takeWhile_run dropWhile_run)
    have "scanNumber (ip @ r1) =
        (TNum (decToNum False (digitsVal (ip @ fp)) (fst (scanExponent r2) - int (length fp))),
         length ip + (1 + length fp) + length expo)"
      using tw dot tw2 lead expo after_plus
      by (simp add: scanNumber_def Let_def)
    then show ?thesis
      by (auto simp: r1_def r2_def fp)
  qed
qed

lemma lex_number:
  assumes ip: "list_all isDigit ip" "ip \<noteq> []" "length ip = 1 \<or> \<not> startsWith ''0'' ip"
    and fr: "frac = [] \<or> (\<exists>fp. frac = CHR ''.'' # fp \<and> list_all isDigit fp)"
    and ex: "expo = [] \<or> (\<exists>sg ed. expo = CHR ''e'' # sg # ed \<and> (sg = CHR ''+'' \<or> sg = CHR ''-'')
        \<and> list_all isDigit ed \<and> ed \<noteq> [])"
  shows "\<exists>x. lex (ip @ frac @ expo @ ''+)'') = [TNum x, TPlus, TRParen]"
proof -
  from scanNumber_shape [OF assms] obtain x where
    x: "scanNumber (ip @ frac @ expo @ ''+)'') = (TNum x, length (ip @ frac @ expo))"
    by blast
  from ip(2) obtain c cs where c: "ip = c # cs"
    by (cases ip) auto
  with ip(1) have d: "isDigit c"
    by simp
  define rest where "rest = cs @ frac @ expo @ ''+)''"
  have s: "ip @ frac @ expo @ ''+)'' = c # rest"
    by (simp add: c rest_def)
  have "drop (length (ip @ frac @ expo) - 1) rest = ''+)''"
    by (simp add: c rest_def)
  with x d digit_is_plain [OF d] lex_tail have "lex (c # rest) = [TNum x, TPlus, TRParen]"
    unfolding s by (simp add: lex.simps(2) [of c rest])
  then show ?thesis
    by (auto simp: s)
qed

lemma startsWith_zero_append: "ds \<noteq> [] \<Longrightarrow> startsWith ''0'' (ds @ zs) = startsWith ''0'' ds"
  by (cases ds) (simp_all add: startsWith_def)

lemma startsWith_zero_take: "0 < j \<Longrightarrow> startsWith ''0'' (take j ds) = startsWith ''0'' ds"
  by (cases ds; cases j) (simp_all add: startsWith_def)

lemma list_all_take_drop: "list_all P xs \<Longrightarrow> list_all P (take j xs) \<and> list_all P (drop j xs)"
  by (auto simp: list_all_iff dest: in_set_takeD in_set_dropD)

lemma isDigit_zero: "isDigit CHR ''0''"
  by (simp add: isDigit_def code_def)

lemma zeros_digits: "list_all isDigit (replicate j CHR ''0'')"
  by (induction j) (simp_all add: isDigit_zero)

lemma layout_shape:
  assumes ds: "list_all isDigit ds" "ds \<noteq> []" "\<not> startsWith ''0'' ds"
  shows "\<exists>ip frac expo. layout ds n = ip @ frac @ expo
    \<and> list_all isDigit ip \<and> ip \<noteq> [] \<and> (length ip = 1 \<or> \<not> startsWith ''0'' ip)
    \<and> (frac = [] \<or> (\<exists>fp. frac = CHR ''.'' # fp \<and> list_all isDigit fp))
    \<and> (expo = [] \<or> (\<exists>sg ed. expo = CHR ''e'' # sg # ed \<and> (sg = CHR ''+'' \<or> sg = CHR ''-'')
        \<and> list_all isDigit ed \<and> ed \<noteq> []))"
proof -
  define k where "k = int (length ds)"
  define e where "e = n - 1"
  define sg where "sg = (if e < 0 then CHR ''-'' else CHR ''+'')"
  define ed where "ed = showNat \<bar>e\<bar>"
  have ed: "list_all isDigit ed" "ed \<noteq> []" "sg = CHR ''+'' \<or> sg = CHR ''-''"
    using showNat_digits [of "\<bar>e\<bar>"] by (simp_all add: ed_def sg_def)
  have kpos: "0 < k"
    using ds(2) by (simp add: k_def)
  consider (int) "k \<le> n \<and> n \<le> 21"
    | (point) "\<not> (k \<le> n \<and> n \<le> 21)" "0 < n \<and> n \<le> 21"
    | (small) "\<not> (k \<le> n \<and> n \<le> 21)" "\<not> (0 < n \<and> n \<le> 21)" "- 6 < n \<and> n \<le> 0"
    | (exp1) "\<not> (k \<le> n \<and> n \<le> 21)" "\<not> (0 < n \<and> n \<le> 21)" "\<not> (- 6 < n \<and> n \<le> 0)" "k = 1"
    | (expk) "\<not> (k \<le> n \<and> n \<le> 21)" "\<not> (0 < n \<and> n \<le> 21)" "\<not> (- 6 < n \<and> n \<le> 0)" "k \<noteq> 1"
    by blast
  then show ?thesis
  proof cases
    case int
    then have l: "layout ds n = (ds @ replicate (nat (n - k)) CHR ''0'') @ [] @ []"
      by (auto simp: layout_def k_def)
    have "list_all isDigit (ds @ replicate (nat (n - k)) CHR ''0'')"
      using ds(1) by (simp add: zeros_digits)
    moreover have "\<not> startsWith ''0'' (ds @ replicate (nat (n - k)) CHR ''0'')"
      using ds by (simp add: startsWith_zero_append)
    ultimately show ?thesis
      using l ds(2) by (intro exI [of _ "ds @ replicate (nat (n - k)) CHR ''0''"] exI [of _ "[]"]) simp
  next
    case point
    then have l: "layout ds n = take (nat n) ds @ (CHR ''.'' # drop (nat n) ds) @ []"
      by (auto simp: layout_def k_def)
    have "take (nat n) ds \<noteq> []"
      using point ds(2) by simp
    moreover have "\<not> startsWith ''0'' (take (nat n) ds)"
      using point ds(3) by (simp add: startsWith_zero_take)
    ultimately show ?thesis
      using l list_all_take_drop [OF ds(1), of "nat n"]
      by (intro exI [of _ "take (nat n) ds"] exI [of _ "CHR ''.'' # drop (nat n) ds"] exI [of _ "[]"])
        simp
  next
    case small
    then have l: "layout ds n = ''0'' @ (CHR ''.'' # replicate (nat (- n)) CHR ''0'' @ ds) @ []"
      by (auto simp: layout_def k_def)
    have "list_all isDigit (replicate (nat (- n)) CHR ''0'' @ ds)"
      using ds(1) by (simp add: zeros_digits)
    then show ?thesis
      using l
      by (intro exI [of _ "''0''"] exI [of _ "CHR ''.'' # replicate (nat (- n)) CHR ''0'' @ ds"]
          exI [of _ "[]"]) (simp add: isDigit_zero)
  next
    case exp1
    then have l: "layout ds n = ds @ [] @ (CHR ''e'' # sg # ed)"
      by (auto simp: layout_def k_def Let_def e_def sg_def ed_def)
    have "length ds = 1"
      using exp1 by (simp add: k_def)
    then show ?thesis
      using l ds ed
      by (intro exI [of _ ds] exI [of _ "[]"] exI [of _ "CHR ''e'' # sg # ed"]) simp
  next
    case expk
    then have l: "layout ds n = take 1 ds @ (CHR ''.'' # drop 1 ds) @ (CHR ''e'' # sg # ed)"
      by (auto simp: layout_def k_def Let_def e_def sg_def ed_def)
    have "length (take 1 ds) = 1"
      using ds(2) by (cases ds) simp_all
    then show ?thesis
      using l ed list_all_take_drop [OF ds(1), of 1]
      by (intro exI [of _ "take 1 ds"] exI [of _ "CHR ''.'' # drop 1 ds"]
          exI [of _ "CHR ''e'' # sg # ed"]) auto
  qed
qed

lemma not_paren_digit: "isDigit c \<Longrightarrow> c \<noteq> CHR ''(''"
  by (auto simp: isDigit_def code_def)

lemma digits_no_paren: "list_all isDigit xs \<Longrightarrow> CHR ''('' \<notin> set xs"
  by (induction xs) (auto simp: isDigit_def code_def)

lemma shape_no_paren:
  assumes ip: "list_all isDigit ip"
    and fr: "frac = [] \<or> (\<exists>fp. frac = CHR ''.'' # fp \<and> list_all isDigit fp)"
    and ex: "expo = [] \<or> (\<exists>sg ed. expo = CHR ''e'' # sg # ed \<and> (sg = CHR ''+'' \<or> sg = CHR ''-'')
        \<and> list_all isDigit ed \<and> ed \<noteq> [])"
  shows "CHR ''('' \<notin> set (ip @ frac @ expo)"
proof -
  have a: "CHR ''('' \<notin> set ip"
    using ip by (rule digits_no_paren)
  have b: "CHR ''('' \<notin> set frac"
  proof (cases "frac = []")
    case True
    then show ?thesis by simp
  next
    case False
    with fr obtain fp where "frac = CHR ''.'' # fp" "list_all isDigit fp"
      by auto
    with digits_no_paren [of fp] show ?thesis
      by simp
  qed
  have c: "CHR ''('' \<notin> set expo"
  proof (cases "expo = []")
    case True
    then show ?thesis by simp
  next
    case False
    with ex obtain sg ed where "expo = CHR ''e'' # sg # ed" "sg = CHR ''+'' \<or> sg = CHR ''-''"
      "list_all isDigit ed"
      by auto
    with digits_no_paren [of ed] show ?thesis
      by auto
  qed
  from a b c show ?thesis
    by simp
qed

lemma parse_dangling:
  "parse True [] [] [TLParen, TNum x, TPlus, TRParen] = Throw"
  "parse True [] [] [TLParen, TMinus, TNum x, TPlus, TRParen] = Throw"
  by simp_all

lemma lex_open: "lex (CHR ''('' # rest) = TLParen # lex rest"
  by (simp add: lex.simps(2) [of "CHR ''(''" rest] isJsSpace_def code_def)

lemma lex_minus: "\<not> startsWith ''-'' rest \<Longrightarrow> lex (CHR ''-'' # rest) = TMinus # lex rest"
  by (simp add: lex.simps(2) [of "CHR ''-''" rest] isJsSpace_def code_def)

lemma hostEval_layout:
  assumes ds: "list_all isDigit ds" "ds \<noteq> []" "\<not> startsWith ''0'' ds"
  shows "hostEval (layout ds n @ ''+'') = Throw"
    and "hostEval (CHR ''-'' # layout ds n @ ''+'') = Throw"
    and "CHR ''('' \<notin> set (layout ds n)"
proof -
  from layout_shape [OF ds, of n] obtain ip frac expo where
    l: "layout ds n = ip @ frac @ expo"
    and ip: "list_all isDigit ip" "ip \<noteq> []" "length ip = 1 \<or> \<not> startsWith ''0'' ip"
    and fr: "frac = [] \<or> (\<exists>fp. frac = CHR ''.'' # fp \<and> list_all isDigit fp)"
    and ex: "expo = [] \<or> (\<exists>sg ed. expo = CHR ''e'' # sg # ed \<and> (sg = CHR ''+'' \<or> sg = CHR ''-'')
        \<and> list_all isDigit ed \<and> ed \<noteq> [])"
    by blast
  from lex_number [OF ip fr ex] obtain x where
    x: "lex (ip @ frac @ expo @ ''+)'') = [TNum x, TPlus, TRParen]"
    by blast
  have wrapped: "(layout ds n @ ''+'') @ '')'' = ip @ frac @ expo @ ''+)''"
    by (simp add: l)
  from ip obtain c cs where c: "ip = c # cs" "isDigit c"
    by (cases ip) auto
  have nominus: "\<not> startsWith ''-'' (ip @ frac @ expo @ ''+)'')"
    using digit_is_plain(6) [OF c(2)] by (simp add: c(1) startsWith_def)
  show "hostEval (layout ds n @ ''+'') = Throw"
    unfolding hostEval_def by (simp add: l lex_open x)
  show "hostEval (CHR ''-'' # layout ds n @ ''+'') = Throw"
    unfolding hostEval_def using nominus by (simp add: l lex_open lex_minus x)
  show "CHR ''('' \<notin> set (layout ds n)"
    unfolding l using ip(1) fr ex by (rule shape_no_paren)
qed

lemma toStringPos_layout:
  assumes "0 < m"
  shows "\<exists>ds n. toStringPos m e = layout ds n
    \<and> list_all isDigit ds \<and> ds \<noteq> [] \<and> \<not> startsWith ''0'' ds"
proof -
  define a where "a = (if 0 \<le> e then m * 2 ^ nat e else m)"
  define b :: int where "b = (if 0 \<le> e then 1 else 2 ^ nat (- e))"
  have a: "0 < a" and b: "0 < b"
    using assms by (simp_all add: a_def b_def)
  define ks where "ks = shortest 16 (Finite False m e) a b (decExp a b) 1"
  have s: "1 \<le> snd ks"
    unfolding ks_def using a b by (intro shortest_lower) simp_all
  have p: "(1::int) \<le> 10 ^ (fst ks - 1)"
    by simp
  have "toStringPos m e =
      (if snd ks = 10 ^ fst ks then layout (showNat (10 ^ (fst ks - 1))) (decExp a b + 1)
       else layout (showNat (snd ks)) (decExp a b))"
    by (simp add: toStringPos_def Let_def a_def b_def ks_def)
  moreover have "list_all isDigit (showNat (snd ks)) \<and> showNat (snd ks) \<noteq> []"
    "\<not> startsWith ''0'' (showNat (snd ks))"
    using s showNat_digits [of "snd ks"] showNat_no_leading_zero [of "snd ks"] by simp_all
  moreover have "list_all isDigit (showNat (10 ^ (fst ks - 1))) \<and> showNat (10 ^ (fst ks - 1)) \<noteq> []"
    "\<not> startsWith ''0'' (showNat (10 ^ (fst ks - 1)))"
    using p showNat_digits [of "10 ^ (fst ks - 1)"] showNat_no_leading_zero [of "10 ^ (fst ks - 1)"]
    by simp_all
  ultimately show ?thesis
    by (cases "snd ks = 10 ^ fst ks") auto
qed

lemma hostEval_special:
  "hostEval ''0+'' = Throw" "hostEval ''Infinity+'' = Throw" "hostEval ''-Infinity+'' = Throw"
  by code_simp+

lemma special_no_paren:
  "CHR ''('' \<notin> set ''0''" "CHR ''('' \<notin> set ''Infinity''" "CHR ''('' \<notin> set ''-Infinity''"
  by simp_all

lemma toString_dangling:
  assumes "\<not> isNaN x" and "\<And>s m e. x = Finite s m e \<Longrightarrow> 0 \<le> m"
  shows "hostEval (toString x @ ''+'') = Throw \<and> CHR ''('' \<notin> set (toString x)"
proof (cases x)
  case NaN
  with assms(1) show ?thesis
    by (simp add: isNaN_def)
next
  case (Infinity s)
  with hostEval_special show ?thesis
    by (simp add: toString_def)
next
  case (Finite s m e)
  show ?thesis
  proof (cases "m = 0")
    case True
    with Finite hostEval_special show ?thesis
      by (simp add: toString_def)
  next
    case False
    with assms(2) [OF Finite] have "0 < m"
      by simp
    from toStringPos_layout [OF this, of e] obtain ds n where
      l: "toStringPos m e = layout ds n"
      and ds: "list_all isDigit ds" "ds \<noteq> []" "\<not> startsWith ''0'' ds"
      by blast
    from hostEval_layout [OF ds, of n] False Finite l show ?thesis
      by (simp add: toString_def)
  qed
qed

lemma matchRangeCall_needs_paren: "CHR ''('' \<notin> set s \<Longrightarrow> matchRangeCall name s = None"
proof -
  assume no: "CHR ''('' \<notin> set s"
  have "\<not> startsWith ''('' (drop (length name) s)"
  proof
    assume "startsWith ''('' (drop (length name) s)"
    then have "CHR ''('' \<in> set (drop (length name) s)"
      by (cases "drop (length name) s") (simp_all add: startsWith_def)
    with no show False
      by (auto dest: in_set_dropD)
  qed
  then show ?thesis
    by (simp add: matchRangeCall_def Let_def)
qed

lemma replaceAll_no_match:
  "(\<And>t. CHR ''('' \<notin> set t \<Longrightarrow> m t = None) \<Longrightarrow> CHR ''('' \<notin> set s \<Longrightarrow> replaceAll m s = Some s"
  by (induction s) simp_all

lemma range_passes_keep:
  assumes "CHR ''('' \<notin> set s"
  shows "sumPass data s = Some s" "avgPass data s = Some s"
  using assms
  by (simp_all add: sumPass_def avgPass_def replaceAll_no_match matchRangeCall_needs_paren)

lemma cellRefPass_A1_plus:
  "cellRefPass data ''A1+'' =
     (case cellRefReplacement data ''A'' ''1'' of None \<Rightarrow> None | Some rep \<Rightarrow> Some (rep @ ''+''))"
proof -
  have m: "matchCellRef ''A1+'' = Some (''A'', ''1'')" "matchCellRef ''+'' = None"
    by code_simp+
  show ?thesis
    by (simp add: cellRefPass_def m split: option.splits)
qed

lemma dangling_operator:
  "evaluateFormula ''=A1+'' row col data = Normal ''#ERROR''"
proof -
  have r: "rowIdxOf ''1'' = Some 0"
    by code_simp
  have t: "trim (drop 1 ''=A1+'') = ''A1+''" "startsWith ''='' ''=A1+''"
    by code_simp+
  obtain rep where rep: "cellRefReplacement data ''A'' ''1'' = Some rep"
    and bad: "hostEval (rep @ ''+'') = Throw" and np: "CHR ''('' \<notin> set rep"
  proof (cases "startsWith ''='' (cellOr0 data (cellKey 0 (colIdxOf ''A'')))
      \<or> isNaN (parseFloat (cellOr0 data (cellKey 0 (colIdxOf ''A''))))")
    case True
    then have "cellRefReplacement data ''A'' ''1'' = Some ''0''"
      by (auto simp: cellRefReplacement_def r Let_def)
    with hostEval_special(1) that [of "''0''"] show ?thesis
      by simp
  next
    case False
    define x where "x = parseFloat (cellOr0 data (cellKey 0 (colIdxOf ''A'')))"
    from False have "cellRefReplacement data ''A'' ''1'' = Some (toString x)"
      by (auto simp: cellRefReplacement_def r Let_def x_def)
    moreover have "hostEval (toString x @ ''+'') = Throw \<and> CHR ''('' \<notin> set (toString x)"
      using False parseFloat_mantissa by (intro toString_dangling) (auto simp: x_def)
    ultimately show ?thesis
      using that [of "toString x"] by simp
  qed
  have "CHR ''('' \<notin> set (rep @ ''+'')"
    using np by simp
  then have "substitute data ''A1+'' = Some (rep @ ''+'')"
    by (simp add: substitute_def cellRefPass_A1_plus rep range_passes_keep)
  with bad t show ?thesis
    by (simp add: evaluateFormula_def)
qed

section \<open>Literals\<close>

text \<open>
  C9. A string that does not start with \<^verbatim>\<open>=\<close> is returned unchanged, by \<^verbatim>\<open>evaluateFormula\<close>
  and by \<^verbatim>\<open>getDisplayValue\<close>: no substitution and no arithmetic is applied to it, whether it
  looks like a number or holds \<^verbatim>\<open>=\<close> further on.
\<close>

theorem literal_unchanged:
  "\<not> startsWith ''='' v \<Longrightarrow>
     evaluateFormula v row col data = Normal v \<and> getDisplayValue data v row col = Normal v"
  by (simp add: evaluateFormula_def getDisplayValue_def)

theorem literal_unchanged_witness:
  "\<not> startsWith ''='' ''12=3'' \<and>
   evaluateFormula ''12=3'' 0 0 sheetA = Normal ''12=3'' \<and>
   getDisplayValue sheetA ''12=3'' 0 0 = Normal ''12=3''"
proof -
  have h: "\<not> startsWith ''='' ''12=3''"
    by (simp add: startsWith_def)
  from literal_unchanged [OF h] h show ?thesis
    by simp
qed

section \<open>Absent cells\<close>

text \<open>
  C10. Inside formula evaluation an absent cell cannot be told from a cell that holds
  \<^verbatim>\<open>"0"\<close>: putting \<^verbatim>\<open>"0"\<close> under an absent key changes the result of no formula. The absent
  cell reads as \<^verbatim>\<open>'0'\<close> there, while \<^verbatim>\<open>getCellValue\<close> reports it as the empty string.
\<close>

theorem absent_cell_reads_as_zero:
  "data k = None \<Longrightarrow>
     evaluateFormula formula row col (data(k \<mapsto> ''0'')) = evaluateFormula formula row col data
     \<and> cellOr0 data k = ''0''
     \<and> (k = cellKey r (Some c) \<longrightarrow> getCellValue data r c = [])"
proof -
  assume absent: "data k = None"
  have same: "cellOr0 (data(k \<mapsto> ''0'')) = cellOr0 data"
    using absent by (auto simp: cellOr0_def fun_eq_iff)
  have "evaluateFormula formula row col (data(k \<mapsto> ''0'')) = evaluateFormula formula row col data"
    by (rule evaluateFormula_cong) (simp_all add: same)
  then show ?thesis
    using absent by (auto simp: cellOr0_def getCellValue_def)
qed

theorem absent_cell_reads_as_zero_witness:
  "sheetA ''1-0'' = None \<and>
   evaluateFormula ''=A2+A1'' 0 0 (sheetA(''1-0'' \<mapsto> ''0'')) = Normal ''3'' \<and>
   evaluateFormula ''=A2+A1'' 0 0 sheetA = Normal ''3'' \<and>
   cellOr0 sheetA ''1-0'' = ''0'' \<and>
   getCellValue sheetA 1 0 = []"
proof -
  have h: "sheetA ''1-0'' = None"
    by (simp add: sheetA_def)
  have k: "''1-0'' = cellKey 1 (Some 0)"
    by code_simp
  have v: "evaluateFormula ''=A2+A1'' 0 0 sheetA = Normal ''3''"
    by code_simp
  from absent_cell_reads_as_zero [of sheetA "''1-0''" "''=A2+A1''" 0 0 1 0] h k v
  show ?thesis
    by simp
qed

section \<open>The order of the passes\<close>

text \<open>
  C1 asks that the range functions are substituted before the bare cell references, so that
  \<^verbatim>\<open>=SUM(A1:A3)\<close> over \<^verbatim>\<open>A1 = "1"\<close>, \<^verbatim>\<open>A2 = "2"\<close>, \<^verbatim>\<open>A3 = "x"\<close> displays \<^verbatim>\<open>3\<close>. The code
  runs the cell-reference pass first: on every such sheet it rewrites the text to
  \<^verbatim>\<open>SUM(1:0)\<close>, which the \<^verbatim>\<open>SUM\<close> expression no longer matches and the host refuses to
  compile, and the result is \<^verbatim>\<open>#ERROR\<close>.
\<close>

theorem sum_of_uppercase_range_is_error:
  "substitute (data(''0-0'' \<mapsto> ''1'', ''1-0'' \<mapsto> ''2'', ''2-0'' \<mapsto> ''x'')) ''SUM(A1:A3)''
     = Some ''SUM(1:0)''
   \<and> hostEval ''SUM(1:0)'' = Throw
   \<and> evaluateFormula ''=SUM(A1:A3)'' row col
         (data(''0-0'' \<mapsto> ''1'', ''1-0'' \<mapsto> ''2'', ''2-0'' \<mapsto> ''x'')) = Normal ''#ERROR''
   \<and> evaluateFormula ''=SUM(A1:A3)'' 0 0 sheetSum = Normal ''#ERROR''"
  by code_simp

section \<open>References to formula cells\<close>

text \<open>
  C2. Substitution is not recursive. A reference to a cell whose content starts with \<^verbatim>\<open>=\<close>
  is replaced by \<^verbatim>\<open>0\<close>; such a cell adds nothing to a \<^verbatim>\<open>SUM\<close> or an \<^verbatim>\<open>AVERAGE\<close>; and no
  result depends on which formula the cell holds, so its computed value is never used. With
  \<^verbatim>\<open>A1 = "=B1"\<close> and \<^verbatim>\<open>B1 = "=A1"\<close> the evaluation of either cell returns \<^verbatim>\<open>0\<close>.
\<close>

theorem formula_cell_contributes_zero:
  "(rowIdxOf rowNum = Some r \<and> startsWith ''='' (cellOr0 data (cellKey r (colIdxOf col)))
      \<longrightarrow> cellRefReplacement data col rowNum = Some ''0'')
   \<and> (startsWith ''='' (cellOr0 data (cellKey r' (Some c')))
      \<longrightarrow> sumCell data r' c' acc = acc \<and> avgCell data r' c' acc' = acc')
   \<and> (data k = Some v \<and> startsWith ''='' v \<and> startsWith ''='' v'
      \<longrightarrow> evaluateFormula formula currentRow currentCol (data(k \<mapsto> v'))
          = evaluateFormula formula currentRow currentCol data)
   \<and> (data ''0-1'' = Some ''=A1''
      \<longrightarrow> evaluateFormula ''=B1'' currentRow currentCol data = Normal ''0'')
   \<and> (data ''0-0'' = Some ''=B1''
      \<longrightarrow> evaluateFormula ''=A1'' currentRow currentCol data = Normal ''0'')"
proof -
  have ref: "rowIdxOf rowNum = Some r \<and> startsWith ''='' (cellOr0 data (cellKey r (colIdxOf col)))
      \<longrightarrow> cellRefReplacement data col rowNum = Some ''0''"
    by (simp add: cellRefReplacement_def)
  have range: "startsWith ''='' (cellOr0 data (cellKey r' (Some c')))
      \<longrightarrow> sumCell data r' c' acc = acc \<and> avgCell data r' c' acc' = acc'"
    by (simp add: sumCell_def avgCell_def)
  have indep: "evaluateFormula formula currentRow currentCol (data(k \<mapsto> v'))
      = evaluateFormula formula currentRow currentCol data"
    if "data k = Some v" "startsWith ''='' v" "startsWith ''='' v'"
  proof (rule evaluateFormula_cong)
    have nonempty: "v \<noteq> []" "v' \<noteq> []"
      using that by (auto simp: startsWith_def)
    show "startsWith ''='' (cellOr0 (data(k \<mapsto> v')) j) = startsWith ''='' (cellOr0 data j)" for j
      using that nonempty by (simp add: cellOr0_def)
    show "cellOr0 (data(k \<mapsto> v')) j = cellOr0 data j"
      if "\<not> startsWith ''='' (cellOr0 (data(k \<mapsto> v')) j)" for j
      using that \<open>data k = Some v\<close> \<open>startsWith ''='' v'\<close> nonempty
      by (auto simp: cellOr0_def split: if_splits)
  qed
  have b1: "evaluateFormula ''=B1'' currentRow currentCol (data(''0-1'' \<mapsto> ''=A1'')) = Normal ''0''"
    by code_simp
  have a1: "evaluateFormula ''=A1'' currentRow currentCol (data(''0-0'' \<mapsto> ''=B1'')) = Normal ''0''"
    by code_simp
  have upd: "data j = Some w \<Longrightarrow> data(j \<mapsto> w) = data" for j w
    by (simp add: map_upd_triv)
  from ref range indep b1 a1 upd [of "''0-1''" "''=A1''"] upd [of "''0-0''" "''=B1''"]
  show ?thesis
    by metis
qed

theorem formula_cell_contributes_zero_witness:
  "rowIdxOf ''1'' = Some 0
   \<and> startsWith ''='' (cellOr0 sheetCircular (cellKey 0 (colIdxOf ''B'')))
   \<and> cellRefReplacement sheetCircular ''B'' ''1'' = Some ''0''
   \<and> startsWith ''='' (cellOr0 sheetCircular (cellKey 0 (Some 1)))
   \<and> sumCell sheetCircular 0 1 one = one
   \<and> avgCell sheetCircular 0 1 (one, one) = (one, one)
   \<and> sheetCircular ''0-1'' = Some ''=A1''
   \<and> startsWith ''='' ''=A1''
   \<and> startsWith ''='' ''=2+2''
   \<and> evaluateFormula ''=B1+1'' 0 0 (sheetCircular(''0-1'' \<mapsto> ''=2+2''))
       = evaluateFormula ''=B1+1'' 0 0 sheetCircular
   \<and> evaluateFormula ''=B1+1'' 0 0 sheetCircular = Normal ''1''
   \<and> sheetCircular ''0-0'' = Some ''=B1''
   \<and> evaluateFormula ''=B1'' 0 0 sheetCircular = Normal ''0''
   \<and> evaluateFormula ''=A1'' 0 0 sheetCircular = Normal ''0''"
proof -
  have h1: "rowIdxOf ''1'' = Some 0"
    by code_simp
  have h2: "startsWith ''='' (cellOr0 sheetCircular (cellKey 0 (colIdxOf ''B'')))"
    by code_simp
  have h3: "startsWith ''='' (cellOr0 sheetCircular (cellKey 0 (Some 1)))"
    by code_simp
  have h4: "sheetCircular ''0-1'' = Some ''=A1''" "sheetCircular ''0-0'' = Some ''=B1''"
    by (simp_all add: sheetCircular_def)
  have h5: "startsWith ''='' ''=A1''" "startsWith ''='' ''=2+2''"
    by (simp_all add: startsWith_def)
  have v: "evaluateFormula ''=B1+1'' 0 0 sheetCircular = Normal ''1''"
    by code_simp
  from formula_cell_contributes_zero
    [of "''1''" 0 sheetCircular "''B''" 0 1 one "(one, one)" "''0-1''" "''=A1''" "''=2+2''"
      "''=B1+1''" 0 0]
    h1 h2 h3 h4 h5 v
  show ?thesis
    by simp
qed

section \<open>\<^verbatim>\<open>AVERAGE\<close>\<close>

text \<open>
  C3 reads an absent entry as the empty string, which does not parse, and so leaves absent
  cells out of the count. The callback of the formula engine reads it as \<^verbatim>\<open>'0'\<close> and counts
  it: over \<^verbatim>\<open>a1:a2\<close> (and over \<^verbatim>\<open>Aa1:Aa2\<close>), with \<^verbatim>\<open>4\<close> in the first cell and nothing in the
  second, \<^verbatim>\<open>AVERAGE\<close> is \<^verbatim>\<open>2\<close>, where the average of the claim is \<^verbatim>\<open>4\<close>. With capital letters
  alone the callback is not reached: \<^verbatim>\<open>=AVERAGE(A1:A2)\<close> over \<^verbatim>\<open>4\<close> and \<^verbatim>\<open>6\<close> is \<^verbatim>\<open>#ERROR\<close>.
\<close>

theorem average_of_absent_cell:
  "evaluateFormula ''=AVERAGE(a1:a2)'' 0 0 sheetC = Normal ''2''
   \<and> avgReplacement sheetC ''a'' ''1'' ''a'' ''2'' = Some ''2''
   \<and> specAverage sheetC (rectKeys 0 1 32 32) = ''4''
   \<and> evaluateFormula ''=AVERAGE(Aa1:Aa2)'' 0 0 sheetD = Normal ''2''
   \<and> specAverage sheetD (rectKeys 0 1 0 0) = ''4''
   \<and> evaluateFormula ''=AVERAGE(A1:A2)'' 0 0 sheetE = Normal ''#ERROR''"
  by code_simp

text \<open>
  What the callback computes: the sum divided by the count, over exactly the cells of the
  rectangle whose content, with an absent or empty entry read as \<^verbatim>\<open>'0'\<close>, is no formula and
  parses as a number; with no such cell, \<^verbatim>\<open>0\<close>.
\<close>

theorem average_callback:
  "rowIdxOf startRow = Some r0 \<and> rowIdxOf endRow = Some r1
   \<and> colIdxOf startCol = Some c0 \<and> colIdxOf endCol = Some c1
   \<longrightarrow> avgReplacement data startCol startRow endCol endRow =
       Some (let vs = filter contributes (map (cellOr0 data) (rectKeys r0 r1 c0 c1))
             in if vs = [] then ''0''
                else toString (ddiv (foldl dadd zero (map parseFloat vs)) (countOf (length vs))))"
proof (intro impI, elim conjE)
  assume idx: "rowIdxOf startRow = Some r0" "rowIdxOf endRow = Some r1"
    "colIdxOf startCol = Some c0" "colIdxOf endCol = Some c1"
  define vs where "vs = filter contributes (map (cellOr0 data) (rectKeys r0 r1 c0 c1))"
  have loop: "avgRows data r0 r1 c0 c1 (zero, zero) =
      (foldl dadd zero (map parseFloat vs), countOf (length vs))"
    by (simp only: avgRows_fold foldl_avgStep vs_def countOf_def)
  have "avgResult (foldl dadd zero (map parseFloat vs), countOf (length vs)) =
      (if vs = [] then ''0''
       else toString (ddiv (foldl dadd zero (map parseFloat vs)) (countOf (length vs))))"
    by (simp add: avgResult_def countOf_greater)
  with loop idx show "avgReplacement data startCol startRow endCol endRow =
       Some (let vs = filter contributes (map (cellOr0 data) (rectKeys r0 r1 c0 c1))
             in if vs = [] then ''0''
                else toString (ddiv (foldl dadd zero (map parseFloat vs)) (countOf (length vs))))"
    by (simp only: avgReplacement_def vs_def [symmetric] Let_def option.case prod.case)
qed

theorem average_callback_witness:
  "rowIdxOf ''1'' = Some 0 \<and> rowIdxOf ''2'' = Some 1
   \<and> colIdxOf ''a'' = Some 32
   \<and> filter contributes (map (cellOr0 sheetC) (rectKeys 0 1 32 32)) = [''4'', ''0'']
   \<and> avgReplacement sheetC ''a'' ''1'' ''a'' ''2'' = Some ''2''"
proof -
  have h: "rowIdxOf ''1'' = Some 0" "rowIdxOf ''2'' = Some 1" "colIdxOf ''a'' = Some 32"
    by code_simp+
  have vs: "filter contributes (map (cellOr0 sheetC) (rectKeys 0 1 32 32)) = [''4'', ''0'']"
    by code_simp
  have v: "toString (ddiv (foldl dadd zero (map parseFloat [''4'', ''0'']))
      (countOf (length [''4'', ''0'']))) = ''2''"
    by code_simp
  from average_callback [of "''1''" 0 "''2''" 1 "''a''" 32 "''a''" 32 sheetC] h
  have "avgReplacement sheetC ''a'' ''1'' ''a'' ''2'' =
      Some (let vs = filter contributes (map (cellOr0 sheetC) (rectKeys 0 1 32 32))
            in if vs = [] then ''0''
               else toString (ddiv (foldl dadd zero (map parseFloat vs)) (countOf (length vs))))"
    by blast
  then have "avgReplacement sheetC ''a'' ''1'' ''a'' ''2'' = Some ''2''"
    unfolding vs Let_def v by simp
  with h vs show ?thesis
    by simp
qed

section \<open>The corners of a range\<close>

text \<open>
  C4 asks that a range means the same rectangle with its corners in either order. The loops
  run from the corner written first to the corner written second: with \<^verbatim>\<open>5\<close> in the first
  cell, \<^verbatim>\<open>=SUM(a1:b2)\<close> is \<^verbatim>\<open>5\<close> and \<^verbatim>\<open>=SUM(b2:a1)\<close> is \<^verbatim>\<open>0\<close>, and so for \<^verbatim>\<open>Aa1:Bb2\<close> and for
  \<^verbatim>\<open>AVERAGE\<close>.
\<close>

theorem reversed_range_counterexample:
  "evaluateFormula ''=SUM(a1:b2)'' 0 0 sheetF = Normal ''5''
   \<and> evaluateFormula ''=SUM(b2:a1)'' 0 0 sheetF = Normal ''0''
   \<and> evaluateFormula ''=AVERAGE(a1:b2)'' 0 0 sheetF = Normal ''1.25''
   \<and> evaluateFormula ''=AVERAGE(b2:a1)'' 0 0 sheetF = Normal ''0''
   \<and> evaluateFormula ''=SUM(Aa1:Bb2)'' 0 0 sheetB = Normal ''5''
   \<and> evaluateFormula ''=SUM(Bb2:Aa1)'' 0 0 sheetB = Normal ''0''
   \<and> sumReplacement sheetF ''a'' ''1'' ''b'' ''2'' = Some ''5''
   \<and> sumReplacement sheetF ''b'' ''2'' ''a'' ''1'' = Some ''0''"
  by code_simp

text \<open>
  C4, amended. The corners are not put in order. The callbacks of \<^verbatim>\<open>SUM\<close> and \<^verbatim>\<open>AVERAGE\<close>
  loop from the corner written first to the corner written second, so that with the second
  row index below the first, or the second column index below the first, the rectangle is
  empty and the callback substitutes \<^verbatim>\<open>0\<close>; \<^verbatim>\<open>=SUM(b2:a1)\<close> and \<^verbatim>\<open>=AVERAGE(b2:a1)\<close> display \<^verbatim>\<open>0\<close>
  on every sheet.
\<close>

theorem reversed_range_is_empty:
  "(rowIdxOf startRow = Some r0 \<and> rowIdxOf endRow = Some r1
    \<and> colIdxOf startCol = Some c0 \<and> colIdxOf endCol = Some c1
    \<and> (r1 < r0 \<or> c1 < c0)
    \<longrightarrow> sumReplacement data startCol startRow endCol endRow = Some ''0''
        \<and> avgReplacement data startCol startRow endCol endRow = Some ''0'')
   \<and> evaluateFormula ''=SUM(b2:a1)'' currentRow currentCol data = Normal ''0''
   \<and> evaluateFormula ''=AVERAGE(b2:a1)'' currentRow currentCol data = Normal ''0''"
proof -
  have "sumRows data r0 r1 c0 c1 zero = zero" "avgRows data r0 r1 c0 c1 (zero, zero) = (zero, zero)"
    if "r1 < r0 \<or> c1 < c0"
    using that sumRows_no_rows sumRows_no_cols avgRows_no_rows avgRows_no_cols by metis+
  then have callbacks: "rowIdxOf startRow = Some r0 \<and> rowIdxOf endRow = Some r1
    \<and> colIdxOf startCol = Some c0 \<and> colIdxOf endCol = Some c1
    \<and> (r1 < r0 \<or> c1 < c0)
    \<longrightarrow> sumReplacement data startCol startRow endCol endRow = Some ''0''
        \<and> avgReplacement data startCol startRow endCol endRow = Some ''0''"
    by (auto simp: sumReplacement_def avgReplacement_def avgResult_def toString_zero zero_not_greater)
  have s: "evaluateFormula ''=SUM(b2:a1)'' currentRow currentCol data = Normal ''0''"
    by code_simp
  have a: "evaluateFormula ''=AVERAGE(b2:a1)'' currentRow currentCol data = Normal ''0''"
    by code_simp
  from callbacks s a show ?thesis
    by blast
qed

theorem reversed_range_is_empty_witness:
  "rowIdxOf ''2'' = Some 1 \<and> rowIdxOf ''1'' = Some 0
   \<and> colIdxOf ''b'' = Some 33 \<and> colIdxOf ''a'' = Some 32
   \<and> sumReplacement sheetF ''b'' ''2'' ''a'' ''1'' = Some ''0''
   \<and> avgReplacement sheetF ''b'' ''2'' ''a'' ''1'' = Some ''0''
   \<and> evaluateFormula ''=SUM(b2:a1)'' 0 0 sheetF = Normal ''0''
   \<and> evaluateFormula ''=AVERAGE(b2:a1)'' 0 0 sheetF = Normal ''0''"
proof -
  have h: "rowIdxOf ''2'' = Some 1" "rowIdxOf ''1'' = Some 0"
    "colIdxOf ''b'' = Some 33" "colIdxOf ''a'' = Some 32"
    by code_simp+
  from reversed_range_is_empty [of "''2''" 1 "''1''" 0 "''b''" 33 "''a''" 32 sheetF 0 0] h
  show ?thesis
    by simp
qed

section \<open>Division by zero\<close>

text \<open>
  C5 asks for an error result on division by zero. The host divides as IEEE 754 does, and
  \<^verbatim>\<open>=1/0\<close> displays \<^verbatim>\<open>Infinity\<close>.
\<close>

theorem division_by_zero_counterexample:
  "evaluateFormula ''=1/0'' 0 0 emptySheet = Normal ''Infinity''
   \<and> evaluateFormula ''=1/0'' 0 0 emptySheet \<noteq> Normal ''#ERROR''"
  by code_simp

text \<open>
  C5, amended. Division by zero yields the host's numeric result, not an error: on every
  sheet \<^verbatim>\<open>=1/0\<close> displays \<^verbatim>\<open>Infinity\<close>, \<^verbatim>\<open>=-1/0\<close> displays \<^verbatim>\<open>-Infinity\<close> and \<^verbatim>\<open>=0/0\<close> displays
  \<^verbatim>\<open>NaN\<close>.
\<close>

theorem division_by_zero_is_infinity:
  "evaluateFormula ''=1/0'' row col data = Normal ''Infinity''
   \<and> evaluateFormula ''=-1/0'' row col data = Normal ''-Infinity''
   \<and> evaluateFormula ''=0/0'' row col data = Normal ''NaN''"
  by code_simp

section \<open>Row number zero\<close>

text \<open>
  C6 asks that an address with row number \<^verbatim>\<open>0\<close> is refused, so that \<^verbatim>\<open>=A0+1\<close> is an error.
  The code has no such check: on the empty sheet \<^verbatim>\<open>=A0+1\<close> displays \<^verbatim>\<open>1\<close>.
\<close>

theorem row_zero_counterexample:
  "evaluateFormula ''=A0+1'' 0 0 emptySheet = Normal ''1''
   \<and> evaluateFormula ''=A0+1'' 0 0 emptySheet \<noteq> Normal ''#ERROR''"
  by code_simp

text \<open>
  C6, amended. Resolving an address does not fail. Row digits that parse to \<^verbatim>\<open>0\<close> give the
  row index \<^verbatim>\<open>-1\<close>, so that \<^verbatim>\<open>A0\<close> reads the key \<^verbatim>\<open>-1-0\<close>; on a sheet without that key the
  reference is replaced by \<^verbatim>\<open>0\<close> and \<^verbatim>\<open>=A0+1\<close> displays \<^verbatim>\<open>1\<close>.
\<close>

theorem row_zero_reads_key_minus_one:
  "rowIdxOf ''0'' = Some (- 1)
   \<and> cellKey (- 1) (colIdxOf ''A'') = ''-1-0''
   \<and> (data ''-1-0'' = None \<longrightarrow> evaluateFormula ''=A0+1'' row col data = Normal ''1'')"
proof -
  have a: "rowIdxOf ''0'' = Some (- 1)" "cellKey (- 1) (colIdxOf ''A'') = ''-1-0''"
    by code_simp+
  have b: "evaluateFormula ''=A0+1'' row col (data(''-1-0'' := None)) = Normal ''1''"
    by code_simp
  have "data ''-1-0'' = None \<Longrightarrow> data(''-1-0'' := None) = data"
    by (simp add: fun_upd_idem)
  with a b show ?thesis
    by auto
qed

theorem row_zero_reads_key_minus_one_witness:
  "emptySheet ''-1-0'' = None \<and> evaluateFormula ''=A0+1'' 0 0 emptySheet = Normal ''1''"
  using row_zero_reads_key_minus_one [of emptySheet 0 0] by (simp add: emptySheet_def)

section \<open>Column letters\<close>

text \<open>
  C7 asks that the whole run of letters is decoded in base 26, so that \<^verbatim>\<open>AA1\<close> is column 26.
  The code decodes the first letter only: \<^verbatim>\<open>AA\<close> is column 0, and \<^verbatim>\<open>=AA1\<close> displays the
  content of \<^verbatim>\<open>A1\<close>.
\<close>

theorem column_decoding_counterexample:
  "colIdxOf ''AA'' = Some 0
   \<and> specColumnIndex ''AA'' = 26
   \<and> evaluateFormula ''=AA1'' 0 0 sheetA = Normal ''3''"
  by code_simp

text \<open>
  C7, amended. The column index of an address is that of the first letter of its run alone
  (\<open>A = 0\<close>, ..., \<open>Z = 25\<close>), whatever letters follow; it is the base-26 value of the run
  when the run is a single letter.
\<close>

theorem column_is_first_letter:
  "colIdxOf (c # cs) = Some (code c - 65)
   \<and> colIdxOf [c] = Some (specColumnIndex [c])
   \<and> cellRefReplacement data (c # cs) rowNum = cellRefReplacement data [c] rowNum"
  by (simp add: colIdxOf_def specColumnIndex_def cellRefReplacement_def split: option.splits)

section \<open>Malformed expressions\<close>

text \<open>
  C8 asks that every expression outside the grammar of numeric literals, parentheses and
  \<^verbatim>\<open>+ - * /\<close> gives the error marker. The text is handed to the host inside a pair of
  parentheses, and the host decides: \<^verbatim>\<open>=1)+(2\<close>, whose parentheses do not balance, displays
  \<^verbatim>\<open>3\<close>, and \<^verbatim>\<open>=Infinity\<close>, an identifier, displays \<^verbatim>\<open>Infinity\<close>.
\<close>

theorem malformed_expression_counterexample:
  "evaluateFormula ''=1)+(2'' 0 0 emptySheet = Normal ''3''
   \<and> evaluateFormula ''=1)+(2'' 0 0 emptySheet \<noteq> Normal ''#ERROR''
   \<and> evaluateFormula ''=Infinity'' 0 0 emptySheet = Normal ''Infinity''"
  by code_simp

text \<open>
  C8, amended. Whenever the host throws on the substituted expression, as it does for an
  empty expression and for a dangling operator, the result is the error marker \<^verbatim>\<open>#ERROR\<close>,
  and no exception leaves \<^verbatim>\<open>evaluateFormula\<close> or \<^verbatim>\<open>getDisplayValue\<close>; \<^verbatim>\<open>=\<close> and \<^verbatim>\<open>=A1+\<close> give the
  error marker on every sheet. What is malformed is decided by the host on the parenthesised
  text: \<^verbatim>\<open>=1)+(2\<close> displays \<^verbatim>\<open>3\<close> and \<^verbatim>\<open>=Infinity\<close> displays \<^verbatim>\<open>Infinity\<close>.
\<close>

theorem host_error_is_marker:
  "(startsWith ''='' formula \<and> substitute data (trim (drop 1 formula)) = Some expr
      \<and> hostEval expr = Throw
      \<longrightarrow> evaluateFormula formula currentRow currentCol data = Normal ''#ERROR'')
   \<and> evaluateFormula formula currentRow currentCol data \<noteq> Throw
   \<and> getDisplayValue data value currentRow currentCol \<noteq> Throw
   \<and> evaluateFormula ''='' currentRow currentCol data = Normal ''#ERROR''
   \<and> evaluateFormula ''=A1+'' currentRow currentCol data = Normal ''#ERROR''
   \<and> getDisplayValue data ''=A1+'' currentRow currentCol = Normal ''#ERROR''
   \<and> evaluateFormula ''=1)+(2'' currentRow currentCol data = Normal ''3''
   \<and> evaluateFormula ''=Infinity'' currentRow currentCol data = Normal ''Infinity''"
proof -
  have caught: "startsWith ''='' formula \<and> substitute data (trim (drop 1 formula)) = Some expr
      \<and> hostEval expr = Throw
      \<longrightarrow> evaluateFormula formula currentRow currentCol data = Normal ''#ERROR''"
    by (simp add: evaluateFormula_def)
  have inner: "evaluateFormula f currentRow currentCol data \<noteq> Throw" for f
    by (simp add: evaluateFormula_def Let_def split: option.splits completion.splits)
  have outer: "getDisplayValue data value currentRow currentCol \<noteq> Throw"
    by (simp add: getDisplayValue_def split: completion.splits)
  have empty: "evaluateFormula ''='' currentRow currentCol data = Normal ''#ERROR''"
    by code_simp
  have dangling: "evaluateFormula ''=A1+'' currentRow currentCol data = Normal ''#ERROR''"
    by (rule dangling_operator)
  have shown: "getDisplayValue data ''=A1+'' currentRow currentCol = Normal ''#ERROR''"
    by (simp add: getDisplayValue_def dangling startsWith_def)
  have paren: "evaluateFormula ''=1)+(2'' currentRow currentCol data = Normal ''3''"
    by code_simp
  have ident: "evaluateFormula ''=Infinity'' currentRow currentCol data = Normal ''Infinity''"
    by code_simp
  from caught inner [of formula] outer empty dangling shown paren ident show ?thesis
    by blast
qed

theorem host_error_is_marker_witness:
  "startsWith ''='' ''=(1''
   \<and> substitute emptySheet (trim (drop 1 ''=(1'')) = Some ''(1''
   \<and> hostEval ''(1'' = Throw
   \<and> evaluateFormula ''=(1'' 0 0 emptySheet = Normal ''#ERROR''
   \<and> evaluateFormula ''=A1+'' 0 0 sheetA = Normal ''#ERROR''"
proof -
  have h: "startsWith ''='' ''=(1''" "substitute emptySheet (trim (drop 1 ''=(1'')) = Some ''(1''"
    "hostEval ''(1'' = Throw"
    by code_simp+
  from host_error_is_marker [of "''=(1''" emptySheet "''(1''" 0 0 "''=(1''"]
    host_error_is_marker [of "''=(1''" sheetA "''(1''" 0 0 "''=(1''"] h
  show ?thesis
    by blast
qed

end
